theory Spec2Isabelle
  imports Main
begin

section \<open>Strings and the slug generator (KanbanSettings.tsx)\<close>

text \<open>
  A JavaScript string is a sequence of UTF-16 code units. It is modelled as the list of
  the numbers of its code units (every function below is defined on all numbers, the
  code units being those below 65536). \<open>str\<close> is the string of a literal of ASCII
  characters.
\<close>

type_synonym jsString = "nat list"

definition str :: "string \<Rightarrow> jsString" where
  "str s = map of_char s"

text \<open>
  White space and line terminators, as \<open>trim\<close> and the class \<open>\s\<close> of a regular
  expression know them: TAB, LF, VT, FF, CR, SPACE, U+00A0, U+1680, U+2000 to U+200A,
  U+2028, U+2029, U+202F, U+205F, U+3000 and U+FEFF.
\<close>

definition isWhiteSpace :: "nat \<Rightarrow> bool" where
  "isWhiteSpace c =
     (c \<in> {9, 10, 11, 12, 13, 32, 160, 5760, 8232, 8233, 8239, 8287, 12288, 65279}
      \<or> (8192 \<le> c \<and> c \<le> 8202))"

text \<open>
  \<open>toLowerCase\<close>. On a string of ASCII code units it maps \<open>A-Z\<close> to \<open>a-z\<close> and leaves the
  rest. On any other string its result is given by the Unicode case mappings, which are
  not part of the sources: it is the argument \<open>unicodeLower\<close>, an arbitrary function, so
  that what is proved holds whatever these mappings are.
\<close>

type_synonym caseMapping = "jsString \<Rightarrow> jsString"

definition asciiLower :: "nat \<Rightarrow> nat" where
  "asciiLower c = (if 65 \<le> c \<and> c \<le> 90 then c + 32 else c)"

definition toLowerCase :: "caseMapping \<Rightarrow> jsString \<Rightarrow> jsString" where
  "toLowerCase unicodeLower s =
     (if list_all (\<lambda>c. c < 128) s then map asciiLower s else unicodeLower s)"

definition trim :: "jsString \<Rightarrow> jsString" where
  "trim s = rev (dropWhile isWhiteSpace (rev (dropWhile isWhiteSpace s)))"

text \<open>The character classes of the regular expressions: \<open>[a-z0-9]\<close> and \<open>-\<close>.\<close>

definition isLowerAlnum :: "nat \<Rightarrow> bool" where
  "isLowerAlnum c = ((97 \<le> c \<and> c \<le> 122) \<or> (48 \<le> c \<and> c \<le> 57))"

definition hyphen :: nat where
  "hyphen = 45"

definition isHyphen :: "nat \<Rightarrow> bool" where
  "isHyphen c = (c = hyphen)"

text \<open>\<^verbatim>\<open>.replace(/[^a-z0-9\s-]/g, "")\<close>: every code unit outside the class is dropped.\<close>

definition removeSpecial :: "jsString \<Rightarrow> jsString" where
  "removeSpecial s = filter (\<lambda>c. isLowerAlnum c \<or> isWhiteSpace c \<or> isHyphen c) s"

text \<open>
  \<^verbatim>\<open>.replace(/\s+/g, "-")\<close> and \<^verbatim>\<open>.replace(/-+/g, "-")\<close>: scanning from the left, every
  maximal run of code units of the class \<open>p\<close> is replaced by one hyphen.
\<close>

function replaceRuns :: "(nat \<Rightarrow> bool) \<Rightarrow> jsString \<Rightarrow> jsString" where
  "replaceRuns p [] = []"
| "replaceRuns p (c # cs) =
     (if p c then hyphen # replaceRuns p (dropWhile p cs) else c # replaceRuns p cs)"
  by pat_completeness auto
termination
  by (relation "measure (\<lambda>(p, cs). length cs)")
    (auto simp: le_imp_less_Suc length_dropWhile_le)

text \<open>
  \<^verbatim>\<open>.replace(/^-|-$/g, "")\<close>: one hyphen at the start is removed, then one hyphen at the
  end of what is left (a lone hyphen is consumed by the first alternative).
\<close>

definition stripLeading :: "jsString \<Rightarrow> jsString" where
  "stripLeading s = (case s of [] \<Rightarrow> [] | c # cs \<Rightarrow> if isHyphen c then cs else s)"

definition stripEdgeHyphens :: "jsString \<Rightarrow> jsString" where
  "stripEdgeHyphens s =
     (let s1 = stripLeading s
      in if s1 \<noteq> [] \<and> isHyphen (last s1) then butlast s1 else s1)"

definition generateSlugFromTitle :: "caseMapping \<Rightarrow> jsString \<Rightarrow> jsString" where
  "generateSlugFromTitle unicodeLower title =
     stripEdgeHyphens (replaceRuns isHyphen (replaceRuns isWhiteSpace
       (removeSpecial (trim (toLowerCase unicodeLower title)))))"

text \<open>The shape of a slug: its code units, its edges, its hyphen runs.\<close>

definition isSlugChar :: "nat \<Rightarrow> bool" where
  "isSlugChar c = (isLowerAlnum c \<or> isHyphen c)"

fun noHyphenRun :: "jsString \<Rightarrow> bool" where
  "noHyphenRun (a # b # cs) = (\<not> (isHyphen a \<and> isHyphen b) \<and> noHyphenRun (b # cs))"
| "noHyphenRun _ = True"

definition noEdgeHyphen :: "jsString \<Rightarrow> bool" where
  "noEdgeHyphen s = (s = [] \<or> (\<not> isHyphen (hd s) \<and> \<not> isHyphen (last s)))"


section \<open>Columns and the status resolver (KanbanSettings.tsx)\<close>

text \<open>
  \<open>KanbanColumn\<close>: \<open>id\<close>, \<open>status\<close>, \<open>title\<close>, \<open>color\<close>, \<open>icon\<close>, the optional
  \<open>gmailLabel\<close> and \<open>order\<close>. A string field that a payload leaves out is the empty
  string here: the source only ever tests such a field with \<open>!field\<close>, which holds for the
  missing and for the empty string alike.
\<close>

record column =
  col_id :: jsString
  col_status :: jsString
  col_title :: jsString
  col_color :: jsString
  col_icon :: jsString
  col_gmailLabel :: "jsString option"
  col_order :: int

text \<open>Truthiness of a \<open>string | undefined\<close> value.\<close>

definition truthy :: "jsString option \<Rightarrow> bool" where
  "truthy v = (case v of None \<Rightarrow> False | Some s \<Rightarrow> s \<noteq> [])"

text \<open>The decimal numeral that a template literal prints for a counter.\<close>

definition digitChar :: "nat \<Rightarrow> nat" where
  "digitChar d = 48 + d"

fun numberToString :: "nat \<Rightarrow> jsString" where
  "numberToString n =
     (if n < 10 then [digitChar n] else numberToString (n div 10) @ [digitChar (n mod 10)])"

declare numberToString.simps [simp del]

definition digitsValue :: "jsString \<Rightarrow> nat" where
  "digitsValue s = foldl (\<lambda>a c. 10 * a + (c - 48)) 0 s"

text \<open>\<^verbatim>\<open>`${baseStatus}-${counter}`\<close>\<close>

definition suffixed :: "jsString \<Rightarrow> nat \<Rightarrow> jsString" where
  "suffixed baseStatus counter = baseStatus @ (str ''-'') @ numberToString counter"

text \<open>
  The loop condition of \<open>generateUniqueStatus\<close>:
  \<^verbatim>\<open>columns.some((col) => col.status === status && col.id !== excludeId)\<close>.
  An \<open>excludeId\<close> that is \<open>undefined\<close> differs from every id.
\<close>

definition statusTaken :: "column list \<Rightarrow> jsString option \<Rightarrow> jsString \<Rightarrow> bool" where
  "statusTaken columns excludeId status =
     list_ex (\<lambda>col. col_status col = status \<and> Some (col_id col) \<noteq> excludeId) columns"

lemma digitsValue_snoc: "digitsValue (s @ [c]) = 10 * digitsValue s + (c - 48)"
  by (simp add: digitsValue_def)

lemma digitsValue_numberToString: "digitsValue (numberToString n) = n"
proof (induction n rule: numberToString.induct)
  case (1 n)
  show ?case
  proof (cases "n < 10")
    case True
    then show ?thesis
      by (simp add: numberToString.simps[of n] digitsValue_def digitChar_def)
  next
    case False
    have "digitsValue (numberToString n) =
          10 * digitsValue (numberToString (n div 10)) + (digitChar (n mod 10) - 48)"
      using False by (simp add: numberToString.simps[of n] digitsValue_snoc)
    also have "\<dots> = 10 * (n div 10) + n mod 10"
      using 1[OF False] by (simp add: digitChar_def)
    finally show ?thesis by simp
  qed
qed

lemma inj_numberToString: "inj numberToString"
  by (rule inj_on_inverseI[where g = digitsValue]) (rule digitsValue_numberToString)

lemma inj_suffixed: "inj (suffixed b)"
  using inj_numberToString by (auto simp: inj_def suffixed_def)

lemma finite_taken: "finite {k. statusTaken cols ex (suffixed b k)}"
proof -
  have "{k. statusTaken cols ex (suffixed b k)} \<subseteq> suffixed b -` (col_status ` set cols)"
    by (clarsimp simp: statusTaken_def list_ex_iff) (metis imageI)
  moreover have "finite (suffixed b -` (col_status ` set cols))"
    by (rule finite_vimageI) (simp_all add: inj_suffixed)
  ultimately show ?thesis by (rule finite_subset)
qed

text \<open>
  The \<open>while\<close> loop of \<open>generateUniqueStatus\<close>, on its two variables \<open>status\<close> and
  \<open>counter\<close>. It ends because only finitely many suffixed candidates are taken: the
  candidates still ahead that are taken (and the current one, when taken) get fewer.
\<close>

function uniqueStatusLoop ::
  "jsString \<Rightarrow> column list \<Rightarrow> jsString option \<Rightarrow> jsString \<Rightarrow> nat \<Rightarrow> jsString" where
  "uniqueStatusLoop baseStatus columns excludeId status counter =
     (if statusTaken columns excludeId status
      then uniqueStatusLoop baseStatus columns excludeId (suffixed baseStatus counter) (counter + 1)
      else status)"
  by pat_completeness auto
termination
proof (relation "measure (\<lambda>(b, cols, ex, st, c).
         card {k. c \<le> k \<and> statusTaken cols ex (suffixed b k)}
         + (if statusTaken cols ex st then 1 else 0))", goal_cases)
  case 1
  then show ?case by simp
next
  case (2 b cols ex st c)
  let ?A = "{k. c \<le> k \<and> statusTaken cols ex (suffixed b k)}"
  let ?B = "{k. c + 1 \<le> k \<and> statusTaken cols ex (suffixed b k)}"
  have finB: "finite ?B" using finite_taken[of cols ex b] by (rule rev_finite_subset) auto
  have "card ?B + (if statusTaken cols ex (suffixed b c) then 1 else 0) = card ?A"
  proof (cases "statusTaken cols ex (suffixed b c)")
    case True
    have "?A = insert c ?B" using True by (auto simp: le_Suc_eq)
    moreover have "c \<notin> ?B" by simp
    ultimately show ?thesis using finB True by simp
  next
    case False
    have "?A = ?B" using False by (auto simp: Suc_le_eq order_le_less)
    then show ?thesis using False by simp
  qed
  with 2 show ?case by simp
qed

declare uniqueStatusLoop.simps [simp del]

text \<open>
  \<^verbatim>\<open>gmailLabel ? generateSlugFromTitle(gmailLabel) : generateSlugFromTitle(title)\<close>
\<close>

definition baseStatusOf :: "caseMapping \<Rightarrow> jsString option \<Rightarrow> jsString \<Rightarrow> jsString" where
  "baseStatusOf lower gmailLabel title =
     (if truthy gmailLabel then generateSlugFromTitle lower (the gmailLabel)
      else generateSlugFromTitle lower title)"

definition generateUniqueStatus ::
  "caseMapping \<Rightarrow> jsString option \<Rightarrow> jsString \<Rightarrow> column list \<Rightarrow> jsString option \<Rightarrow> jsString"
  where
  "generateUniqueStatus lower gmailLabel title columns excludeId =
     (let baseStatus = baseStatusOf lower gmailLabel title
      in uniqueStatusLoop baseStatus columns excludeId baseStatus 1)"

text \<open>
  \<^verbatim>\<open>columns.some((col) => col.gmailLabel === gmailLabel && col.id !== excludeColumnId)\<close>
\<close>

definition isGmailLabelUsed :: "jsString \<Rightarrow> column list \<Rightarrow> jsString option \<Rightarrow> bool" where
  "isGmailLabelUsed gmailLabel columns excludeColumnId =
     list_ex (\<lambda>col. col_gmailLabel col = Some gmailLabel \<and> Some (col_id col) \<noteq> excludeColumnId)
       columns"


section \<open>JavaScript objects as records of jsString keys\<close>

text \<open>
  \<open>statusMigrations\<close> is a \<open>Record<string, string>\<close> that is written key by key and read
  back with \<open>Object.entries\<close>. It is modelled as the list of its properties in creation
  order, with distinct keys: an assignment to an existing key overwrites the value in
  place. \<open>Object.entries\<close> lists the keys that are array indices (canonical numerals below
  \<open>2^32 - 1\<close>) first, in ascending numeric order, and then the other keys in creation
  order. A JSON round trip keeps this order.
\<close>

type_synonym 'v js_object = "(jsString \<times> 'v) list"

fun objSet :: "'v js_object \<Rightarrow> jsString \<Rightarrow> 'v \<Rightarrow> 'v js_object" where
  "objSet [] k v = [(k, v)]"
| "objSet ((k', v') # rest) k v =
     (if k' = k then (k, v) # rest else (k', v') # objSet rest k v)"

definition isArrayIndex :: "jsString \<Rightarrow> bool" where
  "isArrayIndex k = (numberToString (digitsValue k) = k \<and> digitsValue k < 4294967295)"

definition objectEntries :: "'v js_object \<Rightarrow> (jsString \<times> 'v) list" where
  "objectEntries obj =
     sort_key (\<lambda>(k, v). digitsValue k) (filter (\<lambda>(k, v). isArrayIndex k) obj)
     @ filter (\<lambda>(k, v). \<not> isArrayIndex k) obj"


section \<open>The settings editor (KanbanSettings.tsx)\<close>

text \<open>
  The state of the component that the claims need: the edited \<open>columns\<close> and
  \<open>originalStatuses\<close>, the status of each column id at load time (only ever looked up by
  key).
\<close>

record settings =
  columns :: "column list"
  originalStatuses :: "jsString \<rightharpoonup> jsString"

text \<open>
  \<open>handleDeleteColumn\<close>. The answer of the \<open>confirm\<close> dialog is the argument \<open>confirmed\<close>.
\<close>

definition handleDeleteColumn :: "bool \<Rightarrow> jsString \<Rightarrow> settings \<Rightarrow> settings" where
  "handleDeleteColumn confirmed columnId st =
     (if length (columns st) \<le> 1 then st
      else if confirmed
        then st\<lparr>columns := filter (\<lambda>col. col_id col \<noteq> columnId) (columns st)\<rparr>
      else st)"

text \<open>
  \<open>handleUpdateColumn(columnId, field, value)\<close>. The component calls it for the four
  fields below; \<open>value\<close> is a \<open>string | undefined\<close>, and \<open>undefined\<close> in a string field is
  the empty string of the model.
\<close>

datatype field = Title | Color | Icon | GmailLabel

definition stringOf :: "jsString option \<Rightarrow> jsString" where
  "stringOf v = (case v of None \<Rightarrow> [] | Some s \<Rightarrow> s)"

definition setField :: "column \<Rightarrow> field \<Rightarrow> jsString option \<Rightarrow> column" where
  "setField col f v =
     (case f of
        Title \<Rightarrow> col\<lparr>col_title := stringOf v\<rparr>
      | Color \<Rightarrow> col\<lparr>col_color := stringOf v\<rparr>
      | Icon \<Rightarrow> col\<lparr>col_icon := stringOf v\<rparr>
      | GmailLabel \<Rightarrow> col\<lparr>col_gmailLabel := v\<rparr>)"

definition updateColumn ::
  "caseMapping \<Rightarrow> column list \<Rightarrow> field \<Rightarrow> jsString option \<Rightarrow> column \<Rightarrow> column" where
  "updateColumn lower cols f v col =
     (let updatedCol = setField col f v
      in if f = GmailLabel \<or> f = Title
         then (let newGmailLabel = (if f = GmailLabel then v else col_gmailLabel col);
                   newTitle = (if f = Title then (if truthy v then the v else col_title col)
                               else col_title col)
               in updatedCol\<lparr>col_status :=
                    generateUniqueStatus lower newGmailLabel newTitle cols (Some (col_id col))\<rparr>)
         else updatedCol)"

definition handleUpdateColumn ::
  "caseMapping \<Rightarrow> jsString \<Rightarrow> field \<Rightarrow> jsString option \<Rightarrow> settings \<Rightarrow> settings" where
  "handleUpdateColumn lower columnId f v st =
     (if f = GmailLabel \<and> truthy v \<and> isGmailLabelUsed (the v) (columns st) (Some columnId)
      then st
      else st\<lparr>columns :=
             map (\<lambda>col. if col_id col = columnId then updateColumn lower (columns st) f v col else col)
               (columns st)\<rparr>)"

text \<open>
  \<open>handleSave\<close>: the \<open>order\<close> of every column becomes its index, and the migration map is
  built column by column:
  \<^verbatim>\<open>if (originalStatus && originalStatus !== col.status)
       statusMigrations[originalStatus] = col.status;\<close>
  Both go to \<open>updateKanbanConfig\<close>.
\<close>

record putBody =
  body_columns :: "column list option"
  body_statusMigrations :: "jsString js_object option"

text \<open>
  Modelled from the spec: \<open>updateKanbanConfig\<close> of \<open>api/kanban.api\<close> is not among the
  sources. By the interface of the service (\<open>PUT config\<close> with the body
  \<open>{ columns, statusMigrations? }\<close>) it sends its two arguments as that body.
\<close>

definition updateKanbanConfig :: "column list \<Rightarrow> jsString js_object \<Rightarrow> putBody" where
  "updateKanbanConfig cols statusMigrations =
     \<lparr>body_columns = Some cols, body_statusMigrations = Some statusMigrations\<rparr>"

definition orderedColumns :: "column list \<Rightarrow> column list" where
  "orderedColumns cols = map (\<lambda>(index, col). col\<lparr>col_order := int index\<rparr>) (enumerate 0 cols)"

definition recordMigration :: "(jsString \<rightharpoonup> jsString) \<Rightarrow> jsString js_object \<Rightarrow> column \<Rightarrow> jsString js_object"
  where
  "recordMigration orig statusMigrations col =
     (case orig (col_id col) of
        None \<Rightarrow> statusMigrations
      | Some originalStatus \<Rightarrow>
          if originalStatus \<noteq> [] \<and> originalStatus \<noteq> col_status col
          then objSet statusMigrations originalStatus (col_status col)
          else statusMigrations)"

definition handleSave :: "settings \<Rightarrow> putBody" where
  "handleSave st =
     (let ordered = orderedColumns (columns st)
      in updateKanbanConfig ordered (foldl (recordMigration (originalStatuses st)) [] ordered))"


section \<open>The configuration routes of the server (routes/kanban.ts)\<close>

text \<open>
  The two collections the routes touch: one configuration (a column array) per user id,
  and the emails, of which the routes read \<open>userId\<close> and rewrite \<open>status\<close>.

  Modelled from the spec: the Mongoose models \<open>models/KanbanConfig\<close> and \<open>models/Email\<close>
  are not among the sources. By the persisted state layout of the spec, a configuration
  is \<open>{ ownerId, columns: Column[] }\<close>, stored as the routes write it, and an email has an
  owner and a \<open>status\<close>.
\<close>

record emailDoc =
  doc_id :: jsString
  doc_userId :: jsString
  doc_status :: jsString

record server =
  configs :: "jsString \<rightharpoonup> column list"
  emails :: "emailDoc list"

text \<open>
  Every awaited database call may throw; which ones do is the environment of a request, a
  predicate on the calls.
\<close>

datatype dbCall =
    FindOne jsString
  | Save jsString
  | FindOneAndUpdate jsString
  | UpdateMany jsString jsString jsString

datatype response =
    Unauthorized
  | BadRequest string
  | NotFound string
  | InternalServerError
  | Success "column list" string

fun statusCode :: "response \<Rightarrow> nat" where
  "statusCode Unauthorized = 401"
| "statusCode (BadRequest m) = 400"
| "statusCode (NotFound m) = 404"
| "statusCode InternalServerError = 500"
| "statusCode (Success cols m) = 200"

text \<open>\<open>!userId\<close>\<close>

definition noUser :: "jsString option \<Rightarrow> bool" where
  "noUser userId = (\<not> truthy userId)"

text \<open>\<^verbatim>\<open>!column.id || !column.title || !column.color || !column.icon\<close>\<close>

definition incomplete :: "column \<Rightarrow> bool" where
  "incomplete column =
     (col_id column = [] \<or> col_title column = [] \<or> col_color column = [] \<or> col_icon column = [])"

text \<open>The default configuration that \<open>GET /config\<close> creates for a user without one.\<close>

definition defaultColumns :: "column list" where
  "defaultColumns =
     [\<lparr>col_id = (str ''col-inbox''), col_status = (str ''inbox''), col_title = (str ''Inbox''),
       col_color = (str ''bg-blue-500''), col_icon = (str ''Inbox''), col_gmailLabel = Some (str ''INBOX''),
       col_order = 0\<rparr>,
      \<lparr>col_id = (str ''col-todo''), col_status = (str ''todo''), col_title = (str ''To Do''),
       col_color = (str ''bg-yellow-500''), col_icon = (str ''Clock''), col_gmailLabel = Some (str ''STARRED''),
       col_order = 1\<rparr>,
      \<lparr>col_id = (str ''col-done''), col_status = (str ''done''), col_title = (str ''Done''),
       col_color = (str ''bg-green-500''), col_icon = (str ''CheckCircle''), col_gmailLabel = None,
       col_order = 2\<rparr>,
      \<lparr>col_id = (str ''col-snoozed''), col_status = (str ''snoozed''), col_title = (str ''Snoozed''),
       col_color = (str ''bg-purple-500''), col_icon = (str ''Clock''), col_gmailLabel = None,
       col_order = 3\<rparr>]"

definition getConfig :: "(dbCall \<Rightarrow> bool) \<Rightarrow> jsString option \<Rightarrow> server \<Rightarrow> response \<times> server" where
  "getConfig throws userId srv =
     (if noUser userId then (Unauthorized, srv)
      else let uid = the userId in
        if throws (FindOne uid) then (InternalServerError, srv)
        else (case configs srv uid of
                Some cols \<Rightarrow> (Success cols [], srv)
              | None \<Rightarrow>
                  if throws (Save uid) then (InternalServerError, srv)
                  else (Success defaultColumns [],
                        srv\<lparr>configs := (configs srv)(uid \<mapsto> defaultColumns)\<rparr>)))"

text \<open>
  \<^verbatim>\<open>EmailModel.updateMany({ userId, status: oldStatus }, { $set: { status: newStatus } })\<close>:
  every email of the user with the old status gets the new one. The \<open>modifiedCount\<close> of
  the result counts the matched documents that the write changed.
\<close>

definition updateMany :: "jsString \<Rightarrow> jsString \<Rightarrow> jsString \<Rightarrow> emailDoc list \<Rightarrow> emailDoc list \<times> nat" where
  "updateMany userId oldStatus newStatus docs =
     (map (\<lambda>d. if doc_userId d = userId \<and> doc_status d = oldStatus
                then d\<lparr>doc_status := newStatus\<rparr> else d) docs,
      length (filter (\<lambda>d. doc_userId d = userId \<and> doc_status d = oldStatus
                           \<and> doc_status d \<noteq> newStatus) docs))"

text \<open>
  The migration loop of \<open>PUT /config\<close>, over \<open>Object.entries(statusMigrations)\<close>. Each
  round logs the old status, the new status and the \<open>modifiedCount\<close>. A call that throws
  leaves the loop for the \<open>catch\<close> block of the handler (\<open>Inl\<close>) with the emails as the
  earlier rounds left them.
\<close>

type_synonym migrationLog = "(jsString \<times> jsString \<times> nat) list"

fun migrateEmails ::
  "(dbCall \<Rightarrow> bool) \<Rightarrow> jsString \<Rightarrow> (jsString \<times> jsString) list \<Rightarrow> emailDoc list \<Rightarrow> migrationLog
     \<Rightarrow> (emailDoc list \<times> migrationLog) + (emailDoc list \<times> migrationLog)" where
  "migrateEmails throws userId [] docs lg = Inr (docs, lg)"
| "migrateEmails throws userId ((oldStatus, newStatus) # rest) docs lg =
     (if throws (UpdateMany userId oldStatus newStatus) then Inl (docs, lg)
      else (case updateMany userId oldStatus newStatus docs of
              (docs', modifiedCount) \<Rightarrow>
                migrateEmails throws userId rest docs'
                  (lg @ [(oldStatus, newStatus, modifiedCount)])))"

text \<open>
  \<open>PUT /api/kanban/config\<close>. \<open>body_columns = None\<close> is a body whose \<open>columns\<close> is missing
  or not an array. The result is the response, the collections afterwards and the log of
  the migration loop.
\<close>

definition putConfig ::
  "(dbCall \<Rightarrow> bool) \<Rightarrow> jsString option \<Rightarrow> putBody \<Rightarrow> server \<Rightarrow> response \<times> server \<times> migrationLog"
  where
  "putConfig throws userId body srv =
     (if noUser userId then (Unauthorized, srv, [])
      else let uid = the userId in
        (case body_columns body of
           None \<Rightarrow> (BadRequest ''Invalid columns data'', srv, [])
         | Some cols \<Rightarrow>
             if list_ex incomplete cols
             then (BadRequest ''Each column must have id, title, color, and icon'', srv, [])
             else
               (case migrateEmails throws uid
                       (case body_statusMigrations body of
                          None \<Rightarrow> [] | Some m \<Rightarrow> objectEntries m)
                       (emails srv) [] of
                  Inl (docs, lg) \<Rightarrow> (InternalServerError, srv\<lparr>emails := docs\<rparr>, lg)
                | Inr (docs, lg) \<Rightarrow>
                    if throws (FindOneAndUpdate uid)
                    then (InternalServerError, srv\<lparr>emails := docs\<rparr>, lg)
                    else (Success cols ''Kanban configuration updated successfully'',
                          srv\<lparr>emails := docs, configs := (configs srv)(uid \<mapsto> cols)\<rparr>, lg))))"

text \<open>\<open>POST /api/kanban/config/columns\<close>\<close>

definition postColumn ::
  "(dbCall \<Rightarrow> bool) \<Rightarrow> jsString option \<Rightarrow> column \<Rightarrow> server \<Rightarrow> response \<times> server" where
  "postColumn throws userId column srv =
     (if noUser userId then (Unauthorized, srv)
      else let uid = the userId in
        if incomplete column
        then (BadRequest ''Column must have id, title, color, and icon'', srv)
        else if throws (FindOne uid) then (InternalServerError, srv)
        else let cols = (case configs srv uid of None \<Rightarrow> [] | Some cs \<Rightarrow> cs) in
          if list_ex (\<lambda>c. col_id c = col_id column) cols
          then (BadRequest ''Column with this ID already exists'', srv)
          else if throws (Save uid) then (InternalServerError, srv)
          else (Success (cols @ [column]) ''Column added successfully'',
                srv\<lparr>configs := (configs srv)(uid \<mapsto> cols @ [column])\<rparr>))"

text \<open>\<open>DELETE /api/kanban/config/columns/:columnId\<close>\<close>

definition deleteColumn ::
  "(dbCall \<Rightarrow> bool) \<Rightarrow> jsString option \<Rightarrow> jsString \<Rightarrow> server \<Rightarrow> response \<times> server" where
  "deleteColumn throws userId columnId srv =
     (if noUser userId then (Unauthorized, srv)
      else let uid = the userId in
        if throws (FindOne uid) then (InternalServerError, srv)
        else (case configs srv uid of
                None \<Rightarrow> (NotFound ''Kanban configuration not found'', srv)
              | Some cols \<Rightarrow>
                  let cols' = filter (\<lambda>c. col_id c \<noteq> columnId) cols in
                  if throws (Save uid) then (InternalServerError, srv)
                  else (Success cols' ''Column removed successfully'',
                        srv\<lparr>configs := (configs srv)(uid \<mapsto> cols')\<rparr>)))"

text \<open>
  \<open>PATCH /api/kanban/config/columns/:columnId\<close>. The body is a \<open>Partial<KanbanColumn>\<close>:
  each field is given or not. The merge
  \<^verbatim>\<open>{ ...config.columns[columnIndex], ...updates, id: columnId }\<close>
  takes every given field from the body, except the id.
\<close>

record columnPatch =
  patch_id :: "jsString option"
  patch_status :: "jsString option"
  patch_title :: "jsString option"
  patch_color :: "jsString option"
  patch_icon :: "jsString option"
  patch_gmailLabel :: "jsString option option"
  patch_order :: "int option"

definition mergeColumn :: "column \<Rightarrow> columnPatch \<Rightarrow> jsString \<Rightarrow> column" where
  "mergeColumn old updates columnId =
     \<lparr>col_id = columnId,
      col_status = (case patch_status updates of None \<Rightarrow> col_status old | Some v \<Rightarrow> v),
      col_title = (case patch_title updates of None \<Rightarrow> col_title old | Some v \<Rightarrow> v),
      col_color = (case patch_color updates of None \<Rightarrow> col_color old | Some v \<Rightarrow> v),
      col_icon = (case patch_icon updates of None \<Rightarrow> col_icon old | Some v \<Rightarrow> v),
      col_gmailLabel =
        (case patch_gmailLabel updates of None \<Rightarrow> col_gmailLabel old | Some v \<Rightarrow> v),
      col_order = (case patch_order updates of None \<Rightarrow> col_order old | Some v \<Rightarrow> v)\<rparr>"

text \<open>\<open>findIndex\<close>: the first position that satisfies the test, if any.\<close>

fun findIndex :: "('a \<Rightarrow> bool) \<Rightarrow> 'a list \<Rightarrow> nat option" where
  "findIndex p [] = None"
| "findIndex p (x # xs) =
     (if p x then Some 0 else map_option Suc (findIndex p xs))"

definition patchColumn ::
  "(dbCall \<Rightarrow> bool) \<Rightarrow> jsString option \<Rightarrow> jsString \<Rightarrow> columnPatch \<Rightarrow> server \<Rightarrow> response \<times> server"
  where
  "patchColumn throws userId columnId updates srv =
     (if noUser userId then (Unauthorized, srv)
      else let uid = the userId in
        if throws (FindOne uid) then (InternalServerError, srv)
        else (case configs srv uid of
                None \<Rightarrow> (NotFound ''Kanban configuration not found'', srv)
              | Some cols \<Rightarrow>
                  (case findIndex (\<lambda>c. col_id c = columnId) cols of
                     None \<Rightarrow> (NotFound ''Column not found'', srv)
                   | Some columnIndex \<Rightarrow>
                       let cols' = cols[columnIndex :=
                                     mergeColumn (cols ! columnIndex) updates columnId] in
                       if throws (Save uid) then (InternalServerError, srv)
                       else (Success cols' ''Column updated successfully'',
                             srv\<lparr>configs := (configs srv)(uid \<mapsto> cols')\<rparr>))))"


section \<open>The board: drag and drop and snooze (KanbanBoard.tsx)\<close>

text \<open>
  The fields of an \<open>Email\<close> that the two handlers read or write. \<open>snoozeUntil\<close> is a time
  (milliseconds since the epoch; the source stores its ISO rendering) or \<open>null\<close>.
  \<open>emailsByStatus\<close> is the projection of the board: a bucket of emails for each status
  key. A key without a bucket reads as \<open>undefined\<close>.
\<close>

record email =
  email_id :: jsString
  email_status :: jsString
  snoozeUntil :: "int option"

type_synonym projection = "jsString \<rightharpoonup> email list"

record board =
  emailsByStatus :: projection
  draggingEmail :: "email option"
  snoozeEmailId :: "jsString option"

text \<open>
  The two backend calls of the handlers, which may throw (the environment \<open>throws\<close>), and
  the error of reading a property of \<open>undefined\<close>.
\<close>

datatype apiCall =
    SnoozeEmail jsString int
  | UpdateEmailStatus jsString jsString

datatype jsError = TypeError

text \<open>
  \<^verbatim>\<open>snoozeUntil.setHours(snoozeUntil.getHours() + hours)\<close> on a \<open>Date\<close> of the current
  time. A time value is a number of milliseconds since the epoch, in UTC. The time zone of
  the host is the environment of the component: \<open>tzaOfUTC t\<close> is the offset of local time
  at the time value \<open>t\<close>, and \<open>tzaOfLocal l\<close> the offset by which \<open>Date\<close> reads the
  local time \<open>l\<close> (where a local time is repeated or skipped by a clock change, the offset
  from before the change). \<open>setHours\<close> keeps the day, the minutes, the seconds and the
  milliseconds of the local time and sets its hour field to the old one plus \<open>hours\<close>:
  the local time moves by that many hours of 3600000 milliseconds, and is then read back
  as a time value. (Time values are taken within the range of \<open>Date\<close>.)
\<close>

record timeZone =
  tzaOfUTC :: "int \<Rightarrow> int"
  tzaOfLocal :: "int \<Rightarrow> int"

definition setHoursPlus :: "timeZone \<Rightarrow> int \<Rightarrow> int \<Rightarrow> int" where
  "setHoursPlus zone now hours =
     (let localTime = now + tzaOfUTC zone now + hours * 3600000
      in localTime - tzaOfLocal zone localTime)"

text \<open>
  The state updaters of \<open>handleDrop\<close>. \<open>prev[sourceStatus].filter\<close> and the spread of
  \<open>prev.snoozed\<close> or \<open>prev[targetStatus]\<close> throw when the bucket is \<open>undefined\<close>.
\<close>

definition dropToSnoozed :: "email \<Rightarrow> int \<Rightarrow> projection \<Rightarrow> jsError + projection" where
  "dropToSnoozed dragging until prev =
     (case prev (email_status dragging) of
        None \<Rightarrow> Inl TypeError
      | Some source \<Rightarrow>
          (case prev (str ''snoozed'') of
             None \<Rightarrow> Inl TypeError
           | Some snoozed \<Rightarrow>
               Inr (prev(email_status dragging \<mapsto>
                           filter (\<lambda>e. email_id e \<noteq> email_id dragging) source,
                         (str ''snoozed'') \<mapsto>
                           snoozed @ [dragging\<lparr>email_status := (str ''snoozed''),
                                                snoozeUntil := Some until\<rparr>]))))"

definition dropToColumn :: "email \<Rightarrow> jsString \<Rightarrow> projection \<Rightarrow> jsError + projection" where
  "dropToColumn dragging targetStatus prev =
     (case prev (email_status dragging) of
        None \<Rightarrow> Inl TypeError
      | Some source \<Rightarrow>
          (case prev targetStatus of
             None \<Rightarrow> Inl TypeError
           | Some target \<Rightarrow>
               Inr (prev(email_status dragging \<mapsto>
                           filter (\<lambda>e. email_id e \<noteq> email_id dragging) source,
                         targetStatus \<mapsto>
                           target @ [dragging\<lparr>email_status := targetStatus,
                                               snoozeUntil := None\<rparr>]))))"

text \<open>
  \<open>handleDrop(targetStatus)\<close> at time \<open>now\<close> in the time zone \<open>zone\<close>: the backend calls it issued, and the board
  afterwards or the error of its state updater. A backend call that throws is caught and
  logged, and only \<open>draggingEmail\<close> is reset.
\<close>

definition applyUpdate ::
  "board \<Rightarrow> (jsError + projection) \<Rightarrow> (board \<Rightarrow> board) \<Rightarrow> jsError + board" where
  "applyUpdate b r after =
     (case r of Inl e \<Rightarrow> Inl e | Inr p \<Rightarrow> Inr (after (b\<lparr>emailsByStatus := p\<rparr>)))"

definition handleDrop ::
  "timeZone \<Rightarrow> (apiCall \<Rightarrow> bool) \<Rightarrow> int \<Rightarrow> jsString \<Rightarrow> board
     \<Rightarrow> apiCall list \<times> (jsError + board)" where
  "handleDrop zone throws now targetStatus b =
     (case draggingEmail b of
        None \<Rightarrow> ([], Inr (b\<lparr>draggingEmail := None\<rparr>))
      | Some dragging \<Rightarrow>
          if email_status dragging = targetStatus
          then ([], Inr (b\<lparr>draggingEmail := None\<rparr>))
          else if targetStatus = (str ''snoozed'')
          then (let until = setHoursPlus zone now 1; call = SnoozeEmail (email_id dragging) until
                in if throws call then ([call], Inr (b\<lparr>draggingEmail := None\<rparr>))
                   else ([call],
                         applyUpdate b (dropToSnoozed dragging until (emailsByStatus b))
                           (\<lambda>b'. b'\<lparr>draggingEmail := None\<rparr>)))
          else (let call = UpdateEmailStatus (email_id dragging) targetStatus
                in if throws call then ([call], Inr (b\<lparr>draggingEmail := None\<rparr>))
                   else ([call],
                         applyUpdate b (dropToColumn dragging targetStatus (emailsByStatus b))
                           (\<lambda>b'. b'\<lparr>draggingEmail := None\<rparr>))))"






section \<open>Notions and example data for the properties\<close>

subsection \<open>Notions\<close>

text \<open>
  The statuses of a column list are pairwise distinct; the columns stored for a user (none
  before the first save); an email or a bucket has an email of a given id.
\<close>

definition distinctStatuses :: "column list \<Rightarrow> bool" where
  "distinctStatuses cols = distinct (map col_status cols)"

definition columnsOf :: "server \<Rightarrow> jsString \<Rightarrow> column list" where
  "columnsOf srv u = (case configs srv u of None \<Rightarrow> [] | Some cols \<Rightarrow> cols)"


text \<open>
  The emails after the bulk updates of a list of entries, one after the other; the email
  that the map \<open>es\<close> makes of an email of user \<open>uid\<close> when each entry is applied to the
  emails as they were before the save; the number of emails of a user that carry a status.
\<close>

fun rewriteAll :: "jsString \<Rightarrow> (jsString \<times> jsString) list \<Rightarrow> emailDoc list \<Rightarrow> emailDoc list" where
  "rewriteAll userId [] docs = docs"
| "rewriteAll userId ((oldStatus, newStatus) # rest) docs =
     rewriteAll userId rest (fst (updateMany userId oldStatus newStatus docs))"

definition migrated :: "jsString \<Rightarrow> (jsString \<times> jsString) list \<Rightarrow> emailDoc \<Rightarrow> emailDoc" where
  "migrated uid es d =
     (if doc_userId d = uid
      then (case map_of es (doc_status d) of None \<Rightarrow> d | Some nw \<Rightarrow> d\<lparr>doc_status := nw\<rparr>)
      else d)"

definition carrying :: "jsString \<Rightarrow> jsString \<Rightarrow> emailDoc list \<Rightarrow> nat" where
  "carrying uid st docs = length (filter (\<lambda>d. doc_userId d = uid \<and> doc_status d = st) docs)"

subsection \<open>Environments, servers and editor states\<close>

text \<open>
  A stand-in for the Unicode case mappings in closed examples: their strings are ASCII, so
  it is never consulted.
\<close>

definition unmapped :: caseMapping where
  "unmapped s = s"

text \<open>
  Two time zones: UTC, and the Eastern time of North America around the end of daylight
  saving time in 2026, when at 06:00 UTC of the first of November (the time value
  1793512800000, 02:00 local time) the offset goes from minus four to minus five hours.
  The local times from 01:00 to 02:00 of that night come twice; \<open>Date\<close> reads them with
  the offset from before the change.
\<close>

definition utc :: timeZone where
  "utc = \<lparr>tzaOfUTC = (\<lambda>t. 0), tzaOfLocal = (\<lambda>l. 0)\<rparr>"

definition easternFall2026 :: timeZone where
  "easternFall2026 =
     \<lparr>tzaOfUTC = (\<lambda>t. if t < 1793512800000 then - 14400000 else - 18000000),
      tzaOfLocal = (\<lambda>l. if l < 1793512800000 - 14400000 then - 14400000 else - 18000000)\<rparr>"

text \<open>
  No database call throws; no backend call of the board throws; the only call that throws
  is the bulk update of the entry \<open>todo \<rightarrow> later\<close> for user \<open>u1\<close>.
\<close>

definition noFaults :: "dbCall \<Rightarrow> bool" where
  "noFaults call = False"

definition backendUp :: "apiCall \<Rightarrow> bool" where
  "backendUp call = False"

definition secondFails :: "dbCall \<Rightarrow> bool" where
  "secondFails call = (call = UpdateMany (str ''u1'') (str ''todo'') (str ''later''))"

text \<open>
  A body with columns and no migration map. The editor state that \<open>loadConfig\<close> sets for
  a configuration whose columns all have a status and come sorted by \<open>order\<close>: the columns,
  and the status of each id.
\<close>

definition plainBody :: "column list \<Rightarrow> putBody" where
  "plainBody cols = \<lparr>body_columns = Some cols, body_statusMigrations = None\<rparr>"

definition loadedSettings :: "column list \<Rightarrow> settings" where
  "loadedSettings cols =
     \<lparr>columns = cols,
      originalStatuses = foldl (\<lambda>m col. m(col_id col \<mapsto> col_status col)) Map.empty cols\<rparr>"

text \<open>
  A server without data, and one with the default configuration for user \<open>u1\<close> and three
  emails.
\<close>

definition emptyServer :: server where
  "emptyServer = \<lparr>configs = Map.empty, emails = []\<rparr>"

definition seededServer :: server where
  "seededServer =
     \<lparr>configs = [(str ''u1'') \<mapsto> defaultColumns],
      emails = [\<lparr>doc_id = (str ''e1''), doc_userId = (str ''u1''), doc_status = (str ''inbox'')\<rparr>,
                \<lparr>doc_id = (str ''e2''), doc_userId = (str ''u1''), doc_status = (str ''todo'')\<rparr>,
                \<lparr>doc_id = (str ''e3''), doc_userId = (str ''u2''), doc_status = (str ''inbox'')\<rparr>]\<rparr>"

text \<open>
  Two complete columns that claim the same Gmail label, and two with the same status.
\<close>

definition twoInboxLabels :: "column list" where
  "twoInboxLabels = [defaultColumns ! 0, (defaultColumns ! 2)\<lparr>col_gmailLabel := Some (str ''INBOX'')\<rparr>]"

definition twoTodoStatuses :: "column list" where
  "twoTodoStatuses = [defaultColumns ! 1, (defaultColumns ! 2)\<lparr>col_status := (str ''todo'')\<rparr>]"

text \<open>
  An editor in which Done stands before Inbox (their \<open>order\<close> values are still 2 and 0);
  a patch that only renames; a fifth column.
\<close>

definition reordered :: settings where
  "reordered = loadedSettings [defaultColumns ! 2, defaultColumns ! 0]"

definition renameDone :: columnPatch where
  "renameDone = \<lparr>patch_id = None, patch_status = None, patch_title = Some (str ''Finished''),
     patch_color = None, patch_icon = None, patch_gmailLabel = None, patch_order = None\<rparr>"

definition archiveColumn :: column where
  "archiveColumn = \<lparr>col_id = (str ''col-archive''), col_status = (str ''archive''), col_title = (str ''Archive''),
     col_color = (str ''bg-gray-500''), col_icon = (str ''Archive''), col_gmailLabel = None, col_order = 4\<rparr>"

text \<open>
  Two columns of the same title whose statuses the resolver told apart.
\<close>

definition sentColumns :: "column list" where
  "sentColumns =
     [\<lparr>col_id = (str ''col-a''), col_status = (str ''sent-mail''), col_title = (str ''Sent Mail''),
       col_color = (str ''bg-blue-500''), col_icon = (str ''Send''), col_gmailLabel = None, col_order = 0\<rparr>,
      \<lparr>col_id = (str ''col-b''), col_status = (str ''sent-mail-1''), col_title = (str ''Sent Mail''),
       col_color = (str ''bg-red-500''), col_icon = (str ''Mail''), col_gmailLabel = None, col_order = 1\<rparr>]"

text \<open>
  A save that renames Inbox to In and To Do to Later.
\<close>

definition renamedColumns :: "column list" where
  "renamedColumns =
     [(defaultColumns ! 0)\<lparr>col_status := (str ''in''), col_title := (str ''In''), col_gmailLabel := None\<rparr>,
      (defaultColumns ! 1)\<lparr>col_status := (str ''later''), col_title := (str ''Later''), col_gmailLabel := None\<rparr>,
      defaultColumns ! 2, defaultColumns ! 3]"

definition renameBody :: putBody where
  "renameBody = \<lparr>body_columns = Some renamedColumns,
     body_statusMigrations = Some [((str ''inbox''), (str ''in'')), ((str ''todo''), (str ''later''))]\<rparr>"

text \<open>
  Two columns whose titles the editor swaps, in three edits: Foo to Baz, Bar to Foo, Baz to
  Bar. One email sits in each column. (The editor states of the examples are given for
  every case mapping \<open>lower\<close> of \<open>toLowerCase\<close>.)
\<close>

definition fooBar :: "column list" where
  "fooBar =
     [\<lparr>col_id = (str ''col-a''), col_status = (str ''foo''), col_title = (str ''Foo''),
       col_color = (str ''bg-blue-500''), col_icon = (str ''Inbox''), col_gmailLabel = None, col_order = 0\<rparr>,
      \<lparr>col_id = (str ''col-b''), col_status = (str ''bar''), col_title = (str ''Bar''),
       col_color = (str ''bg-red-500''), col_icon = (str ''Mail''), col_gmailLabel = None, col_order = 1\<rparr>]"

definition swapped :: "caseMapping \<Rightarrow> settings" where
  "swapped lower =
     handleUpdateColumn lower (str ''col-a'') Title (Some (str ''Bar''))
       (handleUpdateColumn lower (str ''col-b'') Title (Some (str ''Foo''))
          (handleUpdateColumn lower (str ''col-a'') Title (Some (str ''Baz'')) (loadedSettings fooBar)))"

definition fooBarServer :: server where
  "fooBarServer =
     \<lparr>configs = [(str ''u1'') \<mapsto> fooBar],
      emails = [\<lparr>doc_id = (str ''e1''), doc_userId = (str ''u1''), doc_status = (str ''foo'')\<rparr>,
                \<lparr>doc_id = (str ''e2''), doc_userId = (str ''u1''), doc_status = (str ''bar'')\<rparr>]\<rparr>"

text \<open>
  The column titled Sent Mail, with no Gmail label, renamed to Archived in the editor.
\<close>

definition sentMail :: "column list" where
  "sentMail =
     [\<lparr>col_id = (str ''col-a''), col_status = (str ''sent-mail''), col_title = (str ''Sent Mail''),
       col_color = (str ''bg-blue-500''), col_icon = (str ''Send''), col_gmailLabel = None, col_order = 0\<rparr>,
      defaultColumns ! 2]"

definition sentMailServer :: server where
  "sentMailServer =
     \<lparr>configs = [(str ''u1'') \<mapsto> sentMail],
      emails = [\<lparr>doc_id = (str ''e1''), doc_userId = (str ''u1''), doc_status = (str ''sent-mail'')\<rparr>,
                \<lparr>doc_id = (str ''e2''), doc_userId = (str ''u1''), doc_status = (str ''done'')\<rparr>,
                \<lparr>doc_id = (str ''e3''), doc_userId = (str ''u1''), doc_status = (str ''sent-mail'')\<rparr>,
                \<lparr>doc_id = (str ''e4''), doc_userId = (str ''u2''), doc_status = (str ''sent-mail'')\<rparr>]\<rparr>"

definition archived :: "caseMapping \<Rightarrow> settings" where
  "archived lower =
     handleUpdateColumn lower (str ''col-a'') Title (Some (str ''Archived'')) (loadedSettings sentMail)"

text \<open>
  A board with the four default columns and a fifth one, Archive. The email \<open>m2\<close> is
  being dragged.
\<close>

definition mail :: "jsString \<Rightarrow> jsString \<Rightarrow> int option \<Rightarrow> email" where
  "mail i st until = \<lparr>email_id = i, email_status = st, snoozeUntil = until\<rparr>"

definition fiveBuckets :: board where
  "fiveBuckets =
     \<lparr>emailsByStatus =
        [(str ''inbox'') \<mapsto> [mail (str ''m1'') (str ''inbox'') None],
         (str ''todo'') \<mapsto> [mail (str ''m2'') (str ''todo'') None],
         (str ''done'') \<mapsto> [],
         (str ''snoozed'') \<mapsto> [mail (str ''m3'') (str ''snoozed'') (Some 5000)],
         (str ''archive'') \<mapsto> [mail (str ''m4'') (str ''archive'') None]],
      draggingEmail = Some (mail (str ''m2'') (str ''todo'') None),
      snoozeEmailId = Some (str ''m3'')\<rparr>"



section \<open>Properties\<close>

subsection \<open>Literals\<close>

lemma str_eq_iff [simp]: "str a = str b \<longleftrightarrow> a = b"
proof -
  have "inj (of_char :: char \<Rightarrow> nat)" by (rule inj_of_char)
  then have "inj (map (of_char :: char \<Rightarrow> nat))" by simp
  then show ?thesis by (auto simp: str_def dest: injD)
qed

lemma str_Nil [simp]: "str [] = []"
  by (simp add: str_def)

lemma str_eq_Nil [simp]: "str a = [] \<longleftrightarrow> a = []" "[] = str a \<longleftrightarrow> a = []"
  by (auto simp: str_def)

text \<open>The slugs of the titles of the examples, and two suffixed candidates.\<close>

lemmas slug_eval =
  generateSlugFromTitle_def toLowerCase_def asciiLower_def trim_def removeSpecial_def
  isLowerAlnum_def isWhiteSpace_def isHyphen_def hyphen_def stripEdgeHyphens_def
  stripLeading_def Let_def str_def

lemma slug_Sent_Mail: "generateSlugFromTitle lower (str ''Sent Mail'') = str ''sent-mail''"
  by (simp add: slug_eval)

lemma slug_Archived: "generateSlugFromTitle lower (str ''Archived'') = str ''archived''"
  by (simp add: slug_eval)

lemma slug_Foo_Bar_Baz:
  "generateSlugFromTitle lower (str ''Foo'') = str ''foo''"
  "generateSlugFromTitle lower (str ''Bar'') = str ''bar''"
  "generateSlugFromTitle lower (str ''Baz'') = str ''baz''"
  by (simp_all add: slug_eval)

lemma suffixed_sent_mail:
  "suffixed (str ''sent-mail'') 1 = str ''sent-mail-1''"
  "suffixed (str ''sent-mail'') (Suc 0) = str ''sent-mail-1''"
  "suffixed (str ''sent-mail'') 2 = str ''sent-mail-2''"
  "suffixed (str ''sent-mail'') (Suc (Suc 0)) = str ''sent-mail-2''"
  by (simp_all add: suffixed_def numberToString.simps digitChar_def str_def)

subsection \<open>The slug generator\<close>

lemma set_replaceRuns: "set (replaceRuns p cs) \<subseteq> {c \<in> set cs. \<not> p c} \<union> {hyphen}"
proof (induction p cs rule: replaceRuns.induct)
  case (1 p)
  then show ?case by simp
next
  case (2 p c cs)
  show ?case
  proof (cases "p c")
    case True
    have "set (dropWhile p cs) \<subseteq> set cs" by (auto dest: set_dropWhileD)
    with 2(1)[OF True] True show ?thesis by auto
  next
    case False
    with 2(2)[OF False] show ?thesis by auto
  qed
qed

lemma slug_chars_pipeline:
  "list_all isSlugChar (replaceRuns isHyphen (replaceRuns isWhiteSpace (removeSpecial s)))"
proof -
  have a: "set (removeSpecial s) \<subseteq> {c. isLowerAlnum c \<or> isWhiteSpace c \<or> isHyphen c}"
    by (auto simp: removeSpecial_def)
  have b: "set (replaceRuns isWhiteSpace (removeSpecial s)) \<subseteq> {c. isSlugChar c}"
    using set_replaceRuns[of isWhiteSpace "removeSpecial s"] a
    by (auto simp: isSlugChar_def isHyphen_def)
  have "set (replaceRuns isHyphen (replaceRuns isWhiteSpace (removeSpecial s))) \<subseteq> {c. isSlugChar c}"
    using set_replaceRuns[of isHyphen "replaceRuns isWhiteSpace (removeSpecial s)"] b
    by (auto simp: isSlugChar_def isHyphen_def)
  then show ?thesis by (auto simp: list_all_iff)
qed

lemma set_stripEdgeHyphens: "set (stripEdgeHyphens s) \<subseteq> set s"
  by (auto simp: stripEdgeHyphens_def stripLeading_def Let_def split: list.splits
      dest: in_set_butlastD)

lemma dropWhile_head: "dropWhile p cs = [] \<or> \<not> p (hd (dropWhile p cs))"
  using hd_dropWhile by blast

lemma noHyphenRun_replaceRuns: "noHyphenRun (replaceRuns isHyphen cs)"
proof (induction "isHyphen" cs rule: replaceRuns.induct)
  case 1
  then show ?case by simp
next
  case (2 c cs)
  show ?case
  proof (cases "isHyphen c")
    case True
    define r where "r = dropWhile isHyphen cs"
    have ih: "noHyphenRun (replaceRuns isHyphen r)" using 2(1)[OF True] by (simp add: r_def)
    have eq: "replaceRuns isHyphen (c # cs) = hyphen # replaceRuns isHyphen r"
      using True by (simp add: r_def)
    show ?thesis
    proof (cases r)
      case Nil
      then show ?thesis unfolding eq by simp
    next
      case (Cons d ds)
      then have "\<not> isHyphen d" using dropWhile_head[of isHyphen cs] by (simp add: r_def)
      with Cons ih show ?thesis unfolding eq by simp
    qed
  next
    case False
    have ih: "noHyphenRun (replaceRuns isHyphen cs)" using 2(2)[OF False] .
    show ?thesis using False ih by (cases "replaceRuns isHyphen cs") auto
  qed
qed

lemma noHyphenRun_tl: "noHyphenRun (c # cs) \<Longrightarrow> noHyphenRun cs"
  by (cases cs) auto

lemma noHyphenRun_butlast: "noHyphenRun s \<Longrightarrow> noHyphenRun (butlast s)"
  by (induction s rule: noHyphenRun.induct) (auto split: if_splits)

lemma noHyphenRun_last:
  "noHyphenRun s \<Longrightarrow> butlast s \<noteq> [] \<Longrightarrow> isHyphen (last s) \<Longrightarrow> \<not> isHyphen (last (butlast s))"
  by (induction s rule: noHyphenRun.induct) (auto split: if_splits)

lemma noHyphenRun_stripLeading: "noHyphenRun s \<Longrightarrow> noHyphenRun (stripLeading s)"
  by (auto simp: stripLeading_def split: list.splits dest: noHyphenRun_tl)

lemma stripLeading_head:
  "noHyphenRun s \<Longrightarrow> stripLeading s \<noteq> [] \<Longrightarrow> \<not> isHyphen (hd (stripLeading s))"
  by (cases s rule: noHyphenRun.cases) (auto simp: stripLeading_def)

lemma noHyphenRun_strip: "noHyphenRun s \<Longrightarrow> noHyphenRun (stripEdgeHyphens s)"
  by (simp add: stripEdgeHyphens_def Let_def noHyphenRun_butlast noHyphenRun_stripLeading)

lemma hd_butlast: "butlast xs \<noteq> [] \<Longrightarrow> hd (butlast xs) = hd xs"
  by (cases xs) auto

lemma noEdgeHyphen_strip:
  assumes "noHyphenRun s"
  shows "noEdgeHyphen (stripEdgeHyphens s)"
proof -
  let ?t = "stripLeading s"
  have nr: "noHyphenRun ?t" using assms by (rule noHyphenRun_stripLeading)
  have h: "?t \<noteq> [] \<Longrightarrow> \<not> isHyphen (hd ?t)" using assms by (rule stripLeading_head)
  show ?thesis
  proof (cases "?t \<noteq> [] \<and> isHyphen (last ?t)")
    case True
    then have eq: "stripEdgeHyphens s = butlast ?t" by (simp add: stripEdgeHyphens_def)
    show ?thesis
    proof (cases "butlast ?t = []")
      case True
      then show ?thesis by (simp add: eq noEdgeHyphen_def)
    next
      case False
      have "\<not> isHyphen (last (butlast ?t))"
        using noHyphenRun_last[OF nr False] True by simp
      moreover have "\<not> isHyphen (hd (butlast ?t))"
        using hd_butlast[OF False] h True by simp
      ultimately show ?thesis by (simp add: eq noEdgeHyphen_def)
    qed
  next
    case False
    then have eq: "stripEdgeHyphens s = ?t" by (auto simp: stripEdgeHyphens_def)
    from False h show ?thesis by (auto simp: eq noEdgeHyphen_def)
  qed
qed

lemma toLowerCase_slug:
  assumes "list_all isSlugChar s"
  shows "toLowerCase lower s = s"
proof -
  have "c < 128 \<and> asciiLower c = c" if "isSlugChar c" for c
    using that by (auto simp: isSlugChar_def isLowerAlnum_def isHyphen_def hyphen_def asciiLower_def)
  with assms have "list_all (\<lambda>c. c < 128) s" "map asciiLower s = s"
    by (auto simp: list_all_iff map_idI)
  then show ?thesis by (simp add: toLowerCase_def)
qed

lemma slug_not_ws: "isSlugChar c \<Longrightarrow> \<not> isWhiteSpace c"
  by (auto simp: isSlugChar_def isWhiteSpace_def isLowerAlnum_def isHyphen_def hyphen_def)

lemma trim_slug:
  assumes "list_all isSlugChar s"
  shows "trim s = s"
proof -
  have d: "dropWhile isWhiteSpace t = t" if "list_all isSlugChar t" for t
    using that by (cases t) (auto dest: slug_not_ws)
  have "list_all isSlugChar (rev s)" using assms by (simp add: list_all_iff)
  then show ?thesis using assms by (simp add: trim_def d)
qed

lemma removeSpecial_slug: "list_all isSlugChar s \<Longrightarrow> removeSpecial s = s"
  by (induction s) (auto simp: removeSpecial_def isSlugChar_def)

lemma replaceRuns_none: "list_all (\<lambda>c. \<not> p c) s \<Longrightarrow> replaceRuns p s = s"
  by (induction s) auto

lemma replaceRuns_hyphen_fixed: "noHyphenRun s \<Longrightarrow> replaceRuns isHyphen s = s"
  by (induction s rule: noHyphenRun.induct) (auto simp: isHyphen_def)

lemma stripEdgeHyphens_fixed: "noEdgeHyphen s \<Longrightarrow> stripEdgeHyphens s = s"
  by (cases s) (auto simp: stripEdgeHyphens_def stripLeading_def noEdgeHyphen_def Let_def)

text \<open>
  Claim C6. For every input string \<open>L\<close> (every sequence of code units), and whatever
  \<open>toLowerCase\<close> makes of the strings that are not ASCII, \<open>generateSlugFromTitle L\<close> has
  only code units of \<open>[a-z0-9-]\<close>, neither starts nor ends with a hyphen, has no two
  hyphens in a row, and is a fixed point of \<open>generateSlugFromTitle\<close>.
\<close>

theorem C6_slug_shape_and_idempotence:
  "list_all isSlugChar (generateSlugFromTitle lower L) \<and>
   noEdgeHyphen (generateSlugFromTitle lower L) \<and>
   noHyphenRun (generateSlugFromTitle lower L) \<and>
   generateSlugFromTitle lower (generateSlugFromTitle lower L) = generateSlugFromTitle lower L"
proof -
  let ?u = "replaceRuns isHyphen (replaceRuns isWhiteSpace (removeSpecial (trim (toLowerCase lower L))))"
  let ?r = "generateSlugFromTitle lower L"
  have r: "?r = stripEdgeHyphens ?u" by (simp add: generateSlugFromTitle_def)
  have u1: "list_all isSlugChar ?u" by (rule slug_chars_pipeline)
  have u2: "noHyphenRun ?u" by (rule noHyphenRun_replaceRuns)
  have p1: "list_all isSlugChar ?r"
    using u1 set_stripEdgeHyphens[of ?u] unfolding r by (auto simp: list_all_iff)
  have p2: "noEdgeHyphen ?r" unfolding r using u2 by (rule noEdgeHyphen_strip)
  have p3: "noHyphenRun ?r" unfolding r using u2 by (rule noHyphenRun_strip)
  have ws: "list_all (\<lambda>c. \<not> isWhiteSpace c) ?r"
    using p1 by (auto simp: list_all_iff dest: slug_not_ws)
  have "generateSlugFromTitle lower ?r = ?r"
    unfolding generateSlugFromTitle_def[of lower ?r]
    by (simp add: toLowerCase_slug[OF p1] trim_slug[OF p1] removeSpecial_slug[OF p1]
        replaceRuns_none[OF ws] replaceRuns_hyphen_fixed[OF p3] stripEdgeHyphens_fixed[OF p2])
  with p1 p2 p3 show ?thesis by simp
qed

subsection \<open>The status resolver\<close>

lemma loop_free: "\<not> statusTaken cols ex st \<Longrightarrow> uniqueStatusLoop b cols ex st c = st"
  by (simp add: uniqueStatusLoop.simps[of b cols ex st c])

lemma loop_taken:
  "statusTaken cols ex st \<Longrightarrow>
   \<exists>k\<ge>c. uniqueStatusLoop b cols ex st c = suffixed b k \<and>
        \<not> statusTaken cols ex (suffixed b k) \<and>
        (\<forall>j. c \<le> j \<and> j < k \<longrightarrow> statusTaken cols ex (suffixed b j))"
proof (induction b cols ex st c rule: uniqueStatusLoop.induct)
  case (1 b cols ex st c)
  have step: "uniqueStatusLoop b cols ex st c = uniqueStatusLoop b cols ex (suffixed b c) (c + 1)"
    using 1(2) by (simp add: uniqueStatusLoop.simps[of b cols ex st c])
  show ?case
  proof (cases "statusTaken cols ex (suffixed b c)")
    case False
    then have "uniqueStatusLoop b cols ex st c = suffixed b c"
      by (simp add: step loop_free)
    with False show ?thesis by (intro exI[of _ c]) auto
  next
    case True
    from 1(1)[OF 1(2) True] obtain k where k: "c + 1 \<le> k"
      "uniqueStatusLoop b cols ex (suffixed b c) (c + 1) = suffixed b k"
      "\<not> statusTaken cols ex (suffixed b k)"
      "\<forall>j. c + 1 \<le> j \<and> j < k \<longrightarrow> statusTaken cols ex (suffixed b j)"
      by blast
    have "\<forall>j. c \<le> j \<and> j < k \<longrightarrow> statusTaken cols ex (suffixed b j)"
    proof (intro allI impI)
      fix j assume "c \<le> j \<and> j < k"
      then have "j = c \<or> (c + 1 \<le> j \<and> j < k)" by auto
      then show "statusTaken cols ex (suffixed b j)" using True k(4) by blast
    qed
    with k show ?thesis by (intro exI[of _ k]) (auto simp: step)
  qed
qed

lemma generateUniqueStatus_free:
  "\<not> statusTaken cols excludeId (generateUniqueStatus lower gmailLabel title cols excludeId)"
proof (cases "statusTaken cols excludeId (baseStatusOf lower gmailLabel title)")
  case True
  from loop_taken[OF True, of 1 "baseStatusOf lower gmailLabel title"] show ?thesis
    by (auto simp: generateUniqueStatus_def Let_def)
next
  case False
  then show ?thesis by (simp add: generateUniqueStatus_def Let_def loop_free)
qed

lemma generateUniqueStatus_base:
  "\<not> statusTaken cols excludeId (baseStatusOf lower gmailLabel title) \<Longrightarrow>
   generateUniqueStatus lower gmailLabel title cols excludeId = baseStatusOf lower gmailLabel title"
  by (simp add: generateUniqueStatus_def Let_def loop_free)

text \<open>
  Claim C5. \<open>generateUniqueStatus\<close> returns a status that no column of the list has, the
  column with the excluded id apart. It returns the base slug when that is free, and
  otherwise the base slug with the suffix \<open>-k\<close> for the least \<open>k \<ge> 1\<close> that is free.
\<close>

theorem C5_generateUniqueStatus_least_free:
  "\<not> statusTaken cols excludeId (generateUniqueStatus lower gmailLabel title cols excludeId) \<and>
   (if statusTaken cols excludeId (baseStatusOf lower gmailLabel title)
    then \<exists>k\<ge>1.
           generateUniqueStatus lower gmailLabel title cols excludeId
             = suffixed (baseStatusOf lower gmailLabel title) k \<and>
           (\<forall>j. 1 \<le> j \<and> j < k \<longrightarrow>
                statusTaken cols excludeId (suffixed (baseStatusOf lower gmailLabel title) j))
    else generateUniqueStatus lower gmailLabel title cols excludeId = baseStatusOf lower gmailLabel title)"
proof (cases "statusTaken cols excludeId (baseStatusOf lower gmailLabel title)")
  case True
  from loop_taken[OF True, of 1 "baseStatusOf lower gmailLabel title"]
  show ?thesis using True generateUniqueStatus_free[of cols excludeId lower gmailLabel title]
    by (auto simp: generateUniqueStatus_def Let_def)
next
  case False
  then show ?thesis using generateUniqueStatus_free[of cols excludeId lower gmailLabel title]
    by (simp add: generateUniqueStatus_def Let_def loop_free)
qed

theorem C5_witness:
  "statusTaken sentColumns None (baseStatusOf unmapped None (str ''Sent Mail'')) \<and>
   statusTaken sentColumns None (suffixed (baseStatusOf unmapped None (str ''Sent Mail'')) 1) \<and>
   generateUniqueStatus unmapped None (str ''Sent Mail'') sentColumns None = str ''sent-mail-2'' \<and>
   \<not> statusTaken sentColumns None (str ''sent-mail-2'')"
proof -
  have b: "baseStatusOf unmapped None (str ''Sent Mail'') = str ''sent-mail''"
    by (simp add: baseStatusOf_def truthy_def slug_Sent_Mail)
  have t0: "statusTaken sentColumns None (baseStatusOf unmapped None (str ''Sent Mail''))"
    by (simp add: b statusTaken_def sentColumns_def)
  have t1: "statusTaken sentColumns None (suffixed (baseStatusOf unmapped None (str ''Sent Mail'')) 1)"
    by (simp add: b suffixed_sent_mail statusTaken_def sentColumns_def)
  have l3: "uniqueStatusLoop (str ''sent-mail'') sentColumns None (str ''sent-mail-2'') k
            = str ''sent-mail-2''" for k
    by (rule loop_free) (simp add: statusTaken_def sentColumns_def)
  have l2: "uniqueStatusLoop (str ''sent-mail'') sentColumns None (str ''sent-mail-1'') (Suc (Suc 0))
            = str ''sent-mail-2''"
    using t1 by (subst uniqueStatusLoop.simps) (simp add: b suffixed_sent_mail l3)
  have l1: "uniqueStatusLoop (str ''sent-mail'') sentColumns None (str ''sent-mail'') (Suc 0)
            = str ''sent-mail-2''"
    using t0 by (subst uniqueStatusLoop.simps) (simp add: b suffixed_sent_mail l2)
  have r: "generateUniqueStatus unmapped None (str ''Sent Mail'') sentColumns None
           = str ''sent-mail-2''"
    by (simp add: generateUniqueStatus_def b l1)
  have "\<not> statusTaken sentColumns None
          (generateUniqueStatus unmapped None (str ''Sent Mail'') sentColumns None)"
    using C5_generateUniqueStatus_least_free[of sentColumns None unmapped None "str ''Sent Mail''"]
    by (rule conjunct1)
  with t0 t1 r show ?thesis by simp
qed

subsection \<open>Validation of a save\<close>

lemma putConfig_incomplete:
  "\<not> noUser userId \<Longrightarrow> body_columns body = Some cols \<Longrightarrow> list_ex incomplete cols \<Longrightarrow>
   putConfig throws userId body srv =
     (BadRequest ''Each column must have id, title, color, and icon'', srv, [])"
  by (simp add: putConfig_def)

lemma putConfig_Success:
  assumes "putConfig throws userId body srv = (Success cols m, srv', lg)"
  shows "body_columns body = Some cols \<and> configs srv' (the userId) = Some cols"
  using assms
  by (auto simp: putConfig_def Let_def split: if_splits option.splits sum.splits prod.splits)

text \<open>
  Claim C4, as the code has it. \<open>PUT /config\<close> answers 400 to every payload in which some
  column lacks a non-empty id, title, color or icon, before any email is rewritten and
  before anything is stored: the collections and the migration log are as before. The
  uniqueness of Gmail labels is checked in the settings editor, not by the route:
  \<open>handleUpdateColumn\<close> leaves the editor as it is when the label it is asked to set is
  non-empty and used by another column.
\<close>

theorem C4_put_validation_and_editor_label_check:
  "(\<not> noUser userId \<and> body_columns body = Some cols \<and> list_ex incomplete cols \<longrightarrow>
      putConfig throws userId body srv =
        (BadRequest ''Each column must have id, title, color, and icon'', srv, [])) \<and>
   (truthy v \<and> isGmailLabelUsed (the v) (columns st) (Some columnId) \<longrightarrow>
      handleUpdateColumn lower columnId GmailLabel v st = st)"
  by (simp add: putConfig_incomplete handleUpdateColumn_def)

theorem C4_witness:
  "putConfig noFaults (Some (str ''u1'')) (plainBody [(defaultColumns ! 0)\<lparr>col_title := []\<rparr>])
     seededServer
     = (BadRequest ''Each column must have id, title, color, and icon'', seededServer, []) \<and>
   handleUpdateColumn unmapped (str ''col-done'') GmailLabel (Some (str ''INBOX''))
     (loadedSettings defaultColumns)
     = loadedSettings defaultColumns"
  using C4_put_validation_and_editor_label_check
    [where userId = "Some (str ''u1'')" and cols = "[(defaultColumns ! 0)\<lparr>col_title := []\<rparr>]"
       and body = "plainBody [(defaultColumns ! 0)\<lparr>col_title := []\<rparr>]"
       and throws = noFaults and srv = seededServer
       and v = "Some (str ''INBOX'')" and st = "loadedSettings defaultColumns"
       and columnId = "(str ''col-done'')" and lower = unmapped]
  by (simp add: noUser_def truthy_def plainBody_def incomplete_def defaultColumns_def
      isGmailLabelUsed_def loadedSettings_def)

text \<open>
  The route itself accepts and stores a payload in which two columns have the Gmail label
  \<open>INBOX\<close>.
\<close>

theorem C4_counterexample:
  "col_gmailLabel (twoInboxLabels ! 0) = Some (str ''INBOX'') \<and>
   col_gmailLabel (twoInboxLabels ! 1) = Some (str ''INBOX'') \<and>
   fst (putConfig noFaults (Some (str ''u1'')) (plainBody twoInboxLabels) emptyServer)
     = Success twoInboxLabels ''Kanban configuration updated successfully'' \<and>
   configs (fst (snd (putConfig noFaults (Some (str ''u1'')) (plainBody twoInboxLabels) emptyServer)))
     (str ''u1'') = Some twoInboxLabels"
  by (simp add: putConfig_def noFaults_def plainBody_def emptyServer_def twoInboxLabels_def
      defaultColumns_def noUser_def truthy_def incomplete_def)

subsection \<open>Deleting a column\<close>

lemma filter_distinct_length:
  "distinct (map f xs) \<Longrightarrow> length xs \<le> Suc (length (filter (\<lambda>c. f c \<noteq> x) xs))"
proof (induction xs)
  case Nil
  then show ?case by simp
next
  case (Cons a xs)
  show ?case
  proof (cases "f a = x")
    case True
    have "f c \<noteq> x" if "c \<in> set xs" for c
    proof
      assume "f c = x"
      with that True have "f a \<in> f ` set xs" by (metis imageI)
      with Cons.prems show False by simp
    qed
    then have "\<forall>c\<in>set xs. f c \<noteq> x" by blast
    then have "filter (\<lambda>c. f c \<noteq> x) xs = xs" by (simp add: filter_id_conv)
    with True show ?thesis by simp
  next
    case False
    with Cons show ?thesis by simp
  qed
qed

text \<open>
  Claim C8, as the code has it. In the settings editor, \<open>handleDeleteColumn\<close> leaves the
  state as it is when at most one column remains; and when the ids are pairwise distinct,
  at least one column is left after any call on a non-empty column list.
\<close>

theorem C8_editor_keeps_last_column:
  "(length (columns st) \<le> 1 \<longrightarrow> handleDeleteColumn confirmed columnId st = st) \<and>
   (columns st \<noteq> [] \<and> distinct (map col_id (columns st)) \<longrightarrow>
      1 \<le> length (columns (handleDeleteColumn confirmed columnId st)))"
proof (intro conjI impI)
  assume "length (columns st) \<le> 1"
  then show "handleDeleteColumn confirmed columnId st = st"
    by (simp add: handleDeleteColumn_def)
next
  assume a: "columns st \<noteq> [] \<and> distinct (map col_id (columns st))"
  show "1 \<le> length (columns (handleDeleteColumn confirmed columnId st))"
  proof (cases "length (columns st) \<le> 1")
    case True
    with a show ?thesis by (cases "columns st") (simp_all add: handleDeleteColumn_def)
  next
    case False
    have "length (columns st) \<le> Suc (length (filter (\<lambda>c. col_id c \<noteq> columnId) (columns st)))"
      using a by (intro filter_distinct_length) simp
    with False show ?thesis by (simp add: handleDeleteColumn_def)
  qed
qed

theorem C8_witness:
  "length (columns (loadedSettings [defaultColumns ! 0])) \<le> 1 \<and>
   handleDeleteColumn True (str ''col-inbox'') (loadedSettings [defaultColumns ! 0])
     = loadedSettings [defaultColumns ! 0] \<and>
   columns (loadedSettings defaultColumns) \<noteq> [] \<and>
   distinct (map col_id (columns (loadedSettings defaultColumns))) \<and>
   1 \<le> length (columns (handleDeleteColumn True (str ''col-todo'') (loadedSettings defaultColumns)))"
  using C8_editor_keeps_last_column[of "loadedSettings [defaultColumns ! 0]" True "(str ''col-inbox'')"]
    C8_editor_keeps_last_column[of "loadedSettings defaultColumns" True "(str ''col-todo'')"]
  by (simp add: loadedSettings_def defaultColumns_def)

text \<open>
  The route \<open>DELETE /config/columns/:columnId\<close> has no such check: it removes the last
  column of a configuration and stores the empty array.
\<close>

theorem C8_counterexample:
  "deleteColumn noFaults (Some (str ''u1'')) (str ''col-inbox'')
     \<lparr>configs = [(str ''u1'') \<mapsto> [defaultColumns ! 0]], emails = []\<rparr>
   = (Success [] ''Column removed successfully'',
      \<lparr>configs = [(str ''u1'') \<mapsto> []], emails = []\<rparr>)"
  by (simp add: deleteColumn_def noFaults_def noUser_def truthy_def defaultColumns_def Let_def)

subsection \<open>The order values\<close>

lemma orderedColumns_order: "map col_order (orderedColumns cols) = map int [0..<length cols]"
proof -
  have "map col_order (orderedColumns cols) = map (int \<circ> fst) (enumerate 0 cols)"
    by (simp add: orderedColumns_def case_prod_unfold comp_def)
  also have "\<dots> = map int (map fst (enumerate 0 cols))"
    by (simp only: map_map)
  finally show ?thesis by (simp add: map_fst_enumerate)
qed

lemma length_orderedColumns: "length (orderedColumns cols) = length cols"
  by (simp add: orderedColumns_def)

text \<open>
  Claim C9, as the code has it. When a save from the settings editor succeeds (the body of
  \<open>handleSave\<close>, accepted by \<open>PUT /config\<close>), the stored columns are the editor's columns in
  their order, and the \<open>order\<close> of each is its position, from 0.
\<close>

theorem C9_editor_save_persists_dense_order:
  "putConfig throws userId (handleSave st) srv = (Success cols m, srv', lg) \<longrightarrow>
   configs srv' (the userId) = Some cols \<and>
   length cols = length (columns st) \<and>
   map col_order cols = map int [0..<length cols]"
proof
  assume a: "putConfig throws userId (handleSave st) srv = (Success cols m, srv', lg)"
  from putConfig_Success[OF a] have b: "body_columns (handleSave st) = Some cols"
    and c: "configs srv' (the userId) = Some cols" by simp_all
  from b have "cols = orderedColumns (columns st)" by (simp add: handleSave_def updateKanbanConfig_def Let_def)
  with c show "configs srv' (the userId) = Some cols \<and>
     length cols = length (columns st) \<and> map col_order cols = map int [0..<length cols]"
    by (simp add: orderedColumns_order length_orderedColumns)
qed

theorem C9_witness:
  "fst (putConfig noFaults (Some (str ''u1'')) (handleSave reordered) seededServer)
     = Success (orderedColumns (columns reordered)) ''Kanban configuration updated successfully'' \<and>
   map col_order (columns reordered) = [2, 0] \<and>
   map col_order
     (the (configs (fst (snd (putConfig noFaults (Some (str ''u1'')) (handleSave reordered) seededServer)))
        (str ''u1''))) = [0, 1]"
proof -
  let ?r = "putConfig noFaults (Some (str ''u1'')) (handleSave reordered) seededServer"
  let ?cols = "orderedColumns (columns reordered)"
  have m: "foldl (recordMigration (originalStatuses reordered)) [] ?cols = []"
    by (simp add: reordered_def loadedSettings_def orderedColumns_def defaultColumns_def
        recordMigration_def)
  have e: "fst ?r = Success ?cols ''Kanban configuration updated successfully''"
    by (simp add: putConfig_def handleSave_def updateKanbanConfig_def Let_def m objectEntries_def noFaults_def
        noUser_def truthy_def)
      (simp add: reordered_def loadedSettings_def orderedColumns_def defaultColumns_def
        incomplete_def)
  then have "?r = (Success ?cols ''Kanban configuration updated successfully'',
                   fst (snd ?r), snd (snd ?r))"
    by (metis prod.collapse)
  with C9_editor_save_persists_dense_order[of noFaults "Some (str ''u1'')" reordered seededServer
      ?cols "''Kanban configuration updated successfully''" "fst (snd ?r)" "snd (snd ?r)"]
  have "configs (fst (snd ?r)) (str ''u1'') = Some ?cols \<and>
        map col_order ?cols = map int [0..<length ?cols]"
    by simp
  moreover have "length ?cols = 2" "map col_order (columns reordered) = [2, 0]"
    by (simp_all add: reordered_def loadedSettings_def orderedColumns_def defaultColumns_def)
  ultimately show ?thesis using e by (simp add: upt_rec)
qed

text \<open>
  The routes do not renumber: after \<open>DELETE\<close> of the second default column the stored
  \<open>order\<close> values are 0, 2, 3.
\<close>

theorem C9_counterexample:
  "map col_order
     (the (configs (snd (deleteColumn noFaults (Some (str ''u1'')) (str ''col-todo'') seededServer)) (str ''u1'')))
   = [0, 2, 3]"
  by (simp add: deleteColumn_def noFaults_def noUser_def truthy_def seededServer_def
      defaultColumns_def Let_def)

subsection \<open>Status uniqueness in the store\<close>

lemma putConfig_configs:
  "configs (fst (snd (putConfig throws userId body srv))) =
     (if statusCode (fst (putConfig throws userId body srv)) = 200
      then (configs srv)(the userId \<mapsto> the (body_columns body)) else configs srv)"
  by (auto simp: putConfig_def Let_def split: option.splits sum.splits prod.splits)

lemma postColumn_configs:
  "configs (snd (postColumn throws userId column srv)) =
     (if statusCode (fst (postColumn throws userId column srv)) = 200
      then (configs srv)(the userId \<mapsto> columnsOf srv (the userId) @ [column]) else configs srv)"
  by (auto simp: postColumn_def columnsOf_def Let_def split: option.splits)

lemma findIndex_Some:
  "findIndex p xs = Some i \<Longrightarrow> i < length xs \<and> p (xs ! i) \<and> (\<forall>j<i. \<not> p (xs ! j))"
proof (induction xs arbitrary: i)
  case Nil
  then show ?case by simp
next
  case (Cons x xs)
  show ?case
  proof (cases "p x")
    case True
    with Cons.prems show ?thesis by simp
  next
    case False
    with Cons.prems obtain k where k: "findIndex p xs = Some k" "i = Suc k" by auto
    from Cons.IH[OF k(1)] False k(2) show ?thesis by (auto simp: less_Suc_eq_0_disj)
  qed
qed

lemma patchColumn_configs:
  "configs (snd (patchColumn throws userId columnId updates srv)) =
     (if statusCode (fst (patchColumn throws userId columnId updates srv)) = 200
      then (configs srv)(the userId \<mapsto>
             (columnsOf srv (the userId))
               [the (findIndex (\<lambda>c. col_id c = columnId) (columnsOf srv (the userId))) :=
                  mergeColumn
                    (columnsOf srv (the userId) !
                       the (findIndex (\<lambda>c. col_id c = columnId) (columnsOf srv (the userId))))
                    updates columnId])
      else configs srv)"
  by (auto simp: patchColumn_def columnsOf_def Let_def split: option.splits)

lemma distinct_map_update:
  assumes "distinct (map f xs)" "i < length xs" "f y = f (xs ! i) \<or> f y \<notin> f ` set xs"
  shows "distinct (map f (xs[i := y]))"
proof -
  have eq: "map f (xs[i := y]) = (map f xs)[i := f y]" by (simp add: map_update)
  show ?thesis
  proof (cases "f y = f (xs ! i)")
    case True
    then have "(map f xs)[i := f y] = map f xs" using assms(2) by (simp add: list_update_same_conv)
    with assms(1) eq show ?thesis by simp
  next
    case False
    with assms(3) have "f y \<notin> set (map f xs)" by simp
    with assms(1) show ?thesis unfolding eq by (intro distinct_list_update) auto
  qed
qed

text \<open>
  Claim C1, as the code has it. The routes store the statuses they are given. With
  pairwise distinct statuses stored for a user \<open>u\<close> before the request, they are pairwise
  distinct afterwards, whatever the response, if: for \<open>PUT\<close>, the statuses of the payload are
  pairwise distinct; for \<open>POST\<close>, the status of the new column is not stored yet for the
  requesting user; for \<open>PATCH\<close>, the body has no status or one that is not stored yet for
  the requesting user.
\<close>

theorem C1_store_keeps_distinct_statuses_it_is_given:
  "(distinctStatuses (columnsOf srv u) \<and> distinctStatuses (the (body_columns body)) \<longrightarrow>
      distinctStatuses (columnsOf (fst (snd (putConfig throws userId body srv))) u)) \<and>
   (distinctStatuses (columnsOf srv u) \<and>
    col_status column \<notin> set (map col_status (columnsOf srv (the userId))) \<longrightarrow>
      distinctStatuses (columnsOf (snd (postColumn throws userId column srv)) u)) \<and>
   (distinctStatuses (columnsOf srv u) \<and>
    (patch_status updates = None \<or>
     the (patch_status updates) \<notin> set (map col_status (columnsOf srv (the userId)))) \<longrightarrow>
      distinctStatuses (columnsOf (snd (patchColumn throws userId columnId updates srv)) u))"
proof (intro conjI impI)
  assume "distinctStatuses (columnsOf srv u) \<and> distinctStatuses (the (body_columns body))"
  then show "distinctStatuses (columnsOf (fst (snd (putConfig throws userId body srv))) u)"
    by (simp add: columnsOf_def putConfig_configs)
next
  assume "distinctStatuses (columnsOf srv u) \<and>
    col_status column \<notin> set (map col_status (columnsOf srv (the userId)))"
  then show "distinctStatuses (columnsOf (snd (postColumn throws userId column srv)) u)"
    by (auto simp: columnsOf_def postColumn_configs distinctStatuses_def)
next
  assume a: "distinctStatuses (columnsOf srv u) \<and>
    (patch_status updates = None \<or>
     the (patch_status updates) \<notin> set (map col_status (columnsOf srv (the userId))))"
  let ?r = "patchColumn throws userId columnId updates srv"
  let ?prior = "columnsOf srv (the userId)"
  show "distinctStatuses (columnsOf (snd ?r) u)"
  proof (cases "statusCode (fst ?r) = 200 \<and> u = the userId")
    case False
    with a show ?thesis by (auto simp: columnsOf_def patchColumn_configs)
  next
    case True
    then obtain i where i: "findIndex (\<lambda>c. col_id c = columnId) ?prior = Some i"
      by (auto simp: patchColumn_def columnsOf_def Let_def split: option.splits if_splits)
    then have il: "i < length ?prior" using findIndex_Some by blast
    let ?y = "mergeColumn (?prior ! i) updates columnId"
    have st: "col_status ?y = col_status (?prior ! i) \<or> col_status ?y \<notin> col_status ` set ?prior"
      using a by (auto simp: mergeColumn_def split: option.splits)
    have "distinct (map col_status (?prior[i := ?y]))"
      using a True il st by (intro distinct_map_update) (simp_all add: distinctStatuses_def)
    moreover have "columnsOf (snd ?r) u = ?prior[i := ?y]"
      using True i by (simp add: patchColumn_configs columnsOf_def)
    ultimately show ?thesis by (simp add: distinctStatuses_def)
  qed
qed

theorem C1_witness:
  "distinctStatuses (columnsOf seededServer (str ''u1'')) \<and>
   distinctStatuses (the (body_columns (plainBody (rev defaultColumns)))) \<and>
   distinctStatuses
     (columnsOf (fst (snd (putConfig noFaults (Some (str ''u1'')) (plainBody (rev defaultColumns))
        seededServer))) (str ''u1'')) \<and>
   col_status archiveColumn \<notin> set (map col_status (columnsOf seededServer (str ''u1''))) \<and>
   distinctStatuses (columnsOf (snd (postColumn noFaults (Some (str ''u1'')) archiveColumn seededServer))
     (str ''u1'')) \<and>
   patch_status renameDone = None \<and>
   distinctStatuses
     (columnsOf (snd (patchColumn noFaults (Some (str ''u1'')) (str ''col-done'') renameDone seededServer))
        (str ''u1''))"
proof -
  have a: "distinctStatuses (columnsOf seededServer (str ''u1''))"
    "distinctStatuses (the (body_columns (plainBody (rev defaultColumns))))"
    "col_status archiveColumn \<notin> set (map col_status (columnsOf seededServer (str ''u1'')))"
    "patch_status renameDone = None"
    by (simp_all add: distinctStatuses_def columnsOf_def seededServer_def plainBody_def
        defaultColumns_def archiveColumn_def renameDone_def)
  with C1_store_keeps_distinct_statuses_it_is_given
    [where srv = seededServer and u = "(str ''u1'')" and userId = "Some (str ''u1'')"
       and body = "plainBody (rev defaultColumns)" and throws = noFaults
       and column = archiveColumn and updates = renameDone and columnId = "(str ''col-done'')"]
  show ?thesis by simp
qed

text \<open>
  No route compares statuses: \<open>PUT\<close> accepts and stores two columns of status \<open>todo\<close>.
\<close>

theorem C1_counterexample:
  "col_status (twoTodoStatuses ! 0) = col_status (twoTodoStatuses ! 1) \<and>
   fst (putConfig noFaults (Some (str ''u1'')) (plainBody twoTodoStatuses) emptyServer)
     = Success twoTodoStatuses ''Kanban configuration updated successfully'' \<and>
   configs (fst (snd (putConfig noFaults (Some (str ''u1'')) (plainBody twoTodoStatuses) emptyServer)))
     (str ''u1'') = Some twoTodoStatuses"
  by (simp add: putConfig_def noFaults_def plainBody_def emptyServer_def twoTodoStatuses_def
      defaultColumns_def noUser_def truthy_def incomplete_def)

text \<open>
  In the editor, an edit of a title, a color, an icon or a Gmail label keeps the statuses
  pairwise distinct, when the ids are.
\<close>

lemma updateColumn_status:
  "col_status (updateColumn lower cols f v col) =
     (if f = GmailLabel \<or> f = Title
      then generateUniqueStatus lower (if f = GmailLabel then v else col_gmailLabel col)
             (if f = Title then (if truthy v then the v else col_title col) else col_title col)
             cols (Some (col_id col))
      else col_status col)"
  by (cases f) (simp_all add: updateColumn_def setField_def Let_def)

lemma updateColumn_apart:
  assumes "c \<in> set cols" "col_id c \<noteq> col_id col" "distinctStatuses cols" "col \<in> set cols"
  shows "col_status (updateColumn lower cols f v col) \<noteq> col_status c"
proof (cases "f = GmailLabel \<or> f = Title")
  case True
  let ?s = "col_status (updateColumn lower cols f v col)"
  have "\<not> statusTaken cols (Some (col_id col)) ?s"
    using True by (simp add: updateColumn_status generateUniqueStatus_free)
  then show ?thesis using assms(1,2) by (auto simp: statusTaken_def list_ex_iff)
next
  case False
  then have "col_status (updateColumn lower cols f v col) = col_status col"
    by (simp add: updateColumn_status)
  moreover have "col_status col \<noteq> col_status c"
    using assms by (auto simp: distinctStatuses_def distinct_map inj_on_def)
  ultimately show ?thesis by simp
qed

lemma handleUpdateColumn_keeps_statuses_distinct:
  assumes "distinct (map col_id (columns st))" "distinctStatuses (columns st)"
  shows "distinctStatuses (columns (handleUpdateColumn lower columnId f v st))"
proof (cases "f = GmailLabel \<and> truthy v \<and> isGmailLabelUsed (the v) (columns st) (Some columnId)")
  case True
  then show ?thesis using assms(2) by (simp add: handleUpdateColumn_def)
next
  case False
  let ?cols = "columns st"
  let ?g = "\<lambda>col. if col_id col = columnId then updateColumn lower ?cols f v col else col"
  have eq: "columns (handleUpdateColumn lower columnId f v st) = map ?g ?cols"
    using False by (auto simp: handleUpdateColumn_def)
  have "col_status (?g (?cols ! i)) \<noteq> col_status (?g (?cols ! j))"
    if ij: "i < length ?cols" "j < length ?cols" "i \<noteq> j" for i j
  proof -
    have mem: "?cols ! i \<in> set ?cols" "?cols ! j \<in> set ?cols" using ij by simp_all
    have ids: "col_id (?cols ! i) \<noteq> col_id (?cols ! j)"
      using assms(1) ij by (simp add: distinct_conv_nth)
    have sts: "col_status (?cols ! i) \<noteq> col_status (?cols ! j)"
      using assms(2) ij by (simp add: distinctStatuses_def distinct_conv_nth)
    consider "col_id (?cols ! i) = columnId" | "col_id (?cols ! j) = columnId"
      | "col_id (?cols ! i) \<noteq> columnId" "col_id (?cols ! j) \<noteq> columnId" by blast
    then show ?thesis
    proof cases
      case 1
      with ids have "col_id (?cols ! j) \<noteq> col_id (?cols ! i)" "col_id (?cols ! j) \<noteq> columnId"
        by auto
      with 1 updateColumn_apart[OF mem(2) this(1) assms(2) mem(1), of lower f v] show ?thesis
        by simp
    next
      case 2
      with ids have "col_id (?cols ! i) \<noteq> col_id (?cols ! j)" "col_id (?cols ! i) \<noteq> columnId"
        by auto
      with 2 updateColumn_apart[OF mem(1) this(1) assms(2) mem(2), of lower f v] show ?thesis
        by (simp add: eq_commute)
    next
      case 3
      with sts show ?thesis by simp
    qed
  qed
  then have "distinct (map col_status (map ?g ?cols))"
    by (simp add: distinct_conv_nth)
  then show ?thesis by (simp add: eq distinctStatuses_def)
qed

subsection \<open>A migration entry that fails\<close>

lemma migrateEmails_throw:
  assumes "\<forall>e\<in>set pre. \<not> throws (UpdateMany uid (fst e) (snd e))"
    and "throws (UpdateMany uid old new)"
  shows "\<exists>lg'. migrateEmails throws uid (pre @ (old, new) # post) docs lg
           = Inl (rewriteAll uid pre docs, lg')"
  using assms(1)
proof (induction pre arbitrary: docs lg)
  case Nil
  then show ?case using assms(2) by simp
next
  case (Cons e pre)
  obtain ol nw where e: "e = (ol, nw)" by (cases e)
  from Cons.prems e have nt: "\<not> throws (UpdateMany uid ol nw)" by simp
  from Cons.prems have rest: "\<forall>e\<in>set pre. \<not> throws (UpdateMany uid (fst e) (snd e))" by simp
  obtain docs' cnt where u: "updateMany uid ol nw docs = (docs', cnt)" by (cases "updateMany uid ol nw docs")
  from Cons.IH[OF rest, of docs' "lg @ [(ol, nw, cnt)]"] obtain lg' where
    "migrateEmails throws uid (pre @ (old, new) # post) docs' (lg @ [(ol, nw, cnt)])
       = Inl (rewriteAll uid pre docs', lg')" by blast
  then show ?case using e nt u by (intro exI[of _ lg']) simp
qed

text \<open>
  Claim C3, as the code has it. In a save that passes validation, let the bulk update of
  some entry throw, and none before it. Then the answer is the hard failure 500, the
  stored configurations are as before the request (the new column array is not
  committed), and the emails are as the entries before the failing one left them: these
  are not rolled back, and the entries after it are not attempted.
\<close>

theorem C3_failed_entry_aborts_the_save:
  "\<not> noUser userId \<and> body_columns body = Some cols \<and> \<not> list_ex incomplete cols \<and>
   body_statusMigrations body = Some m \<and> objectEntries m = pre @ (old, new) # post \<and>
   (\<forall>e\<in>set pre. \<not> throws (UpdateMany (the userId) (fst e) (snd e))) \<and>
   throws (UpdateMany (the userId) old new) \<longrightarrow>
   fst (putConfig throws userId body srv) = InternalServerError \<and>
   configs (fst (snd (putConfig throws userId body srv))) = configs srv \<and>
   emails (fst (snd (putConfig throws userId body srv))) = rewriteAll (the userId) pre (emails srv)"
proof
  assume a: "\<not> noUser userId \<and> body_columns body = Some cols \<and> \<not> list_ex incomplete cols \<and>
   body_statusMigrations body = Some m \<and> objectEntries m = pre @ (old, new) # post \<and>
   (\<forall>e\<in>set pre. \<not> throws (UpdateMany (the userId) (fst e) (snd e))) \<and>
   throws (UpdateMany (the userId) old new)"
  then obtain lg' where
    "migrateEmails throws (the userId) (pre @ (old, new) # post) (emails srv) []
       = Inl (rewriteAll (the userId) pre (emails srv), lg')"
    using migrateEmails_throw[of pre throws "the userId" old new post "emails srv" "[]"] by blast
  with a show "fst (putConfig throws userId body srv) = InternalServerError \<and>
   configs (fst (snd (putConfig throws userId body srv))) = configs srv \<and>
   emails (fst (snd (putConfig throws userId body srv))) = rewriteAll (the userId) pre (emails srv)"
    by (simp add: putConfig_def Let_def)
qed

lemma renameEntries:
  "objectEntries [((str ''inbox''), (str ''in'')), ((str ''todo''), (str ''later''))] = [((str ''inbox''), (str ''in'')), ((str ''todo''), (str ''later''))]"
  by (simp add: objectEntries_def isArrayIndex_def digitsValue_def numberToString.simps
      digitChar_def str_def)

theorem C3_witness:
  "objectEntries [((str ''inbox''), (str ''in'')), ((str ''todo''), (str ''later''))]
     = [((str ''inbox''), (str ''in''))] @ ((str ''todo''), (str ''later'')) # [] \<and>
   \<not> secondFails (UpdateMany (str ''u1'') (str ''inbox'') (str ''in'')) \<and>
   secondFails (UpdateMany (str ''u1'') (str ''todo'') (str ''later'')) \<and>
   fst (putConfig secondFails (Some (str ''u1'')) renameBody seededServer) = InternalServerError \<and>
   configs (fst (snd (putConfig secondFails (Some (str ''u1'')) renameBody seededServer)))
     = configs seededServer \<and>
   emails (fst (snd (putConfig secondFails (Some (str ''u1'')) renameBody seededServer)))
     = rewriteAll (str ''u1'') [((str ''inbox''), (str ''in''))] (emails seededServer)"
proof -
  have h: "\<not> noUser (Some (str ''u1''))" "body_columns renameBody = Some renamedColumns"
    "\<not> list_ex incomplete renamedColumns"
    "body_statusMigrations renameBody = Some [((str ''inbox''), (str ''in'')), ((str ''todo''), (str ''later''))]"
    "objectEntries [((str ''inbox''), (str ''in'')), ((str ''todo''), (str ''later''))]
       = [((str ''inbox''), (str ''in''))] @ ((str ''todo''), (str ''later'')) # []"
    "\<forall>e\<in>set [((str ''inbox''), (str ''in''))]. \<not> secondFails (UpdateMany (the (Some (str ''u1''))) (fst e) (snd e))"
    "secondFails (UpdateMany (the (Some (str ''u1''))) (str ''todo'') (str ''later''))"
    by (simp_all add: noUser_def truthy_def renameBody_def renamedColumns_def defaultColumns_def
        incomplete_def renameEntries secondFails_def)
  from C3_failed_entry_aborts_the_save
    [where userId = "Some (str ''u1'')" and body = renameBody and cols = renamedColumns
       and m = "[((str ''inbox''), (str ''in'')), ((str ''todo''), (str ''later''))]" and pre = "[((str ''inbox''), (str ''in''))]"
       and old = "(str ''todo'')" and new = "(str ''later'')" and post = "[]" and throws = secondFails
       and srv = seededServer] h
  show ?thesis by (simp add: secondFails_def)
qed

text \<open>
  With the first entry applied and the second failing, the response is 500 and the stored
  columns are still the default ones, not the renamed ones.
\<close>

theorem C3_counterexample:
  "fst (putConfig secondFails (Some (str ''u1'')) renameBody seededServer) = InternalServerError \<and>
   statusCode (fst (putConfig secondFails (Some (str ''u1'')) renameBody seededServer)) = 500 \<and>
   configs (fst (snd (putConfig secondFails (Some (str ''u1'')) renameBody seededServer))) (str ''u1'')
     = Some defaultColumns \<and>
   defaultColumns \<noteq> renamedColumns \<and>
   map doc_status (emails (fst (snd (putConfig secondFails (Some (str ''u1'')) renameBody seededServer))))
     = [(str ''in''), (str ''todo''), (str ''inbox'')]"
  by (simp add: putConfig_def renameBody_def renameEntries secondFails_def seededServer_def
      noUser_def truthy_def renamedColumns_def defaultColumns_def incomplete_def updateMany_def
      Let_def)

subsection \<open>Status migration\<close>

lemma carrying_updateMany:
  assumes "st \<noteq> ol" "st \<noteq> nw"
  shows "carrying uid st (fst (updateMany uid ol nw docs)) = carrying uid st docs"
  using assms by (induction docs) (auto simp: carrying_def updateMany_def)

lemma migrated_Cons:
  assumes "nw \<notin> fst ` set es"
  shows "migrated uid es (if doc_userId d = uid \<and> doc_status d = ol then d\<lparr>doc_status := nw\<rparr> else d)
         = migrated uid ((ol, nw) # es) d"
proof -
  have "map_of es nw = None" using assms by (simp add: map_of_eq_None_iff)
  then show ?thesis by (auto simp: migrated_def)
qed

lemma migrateEmails_independent:
  assumes "\<forall>e\<in>set es. \<not> throws (UpdateMany uid (fst e) (snd e))"
    and "distinct (map fst es)"
    and "snd ` set es \<inter> fst ` set es = {}"
  shows "migrateEmails throws uid es docs lg =
           Inr (map (migrated uid es) docs,
                lg @ map (\<lambda>e. (fst e, snd e, carrying uid (fst e) docs)) es)"
  using assms
proof (induction es arbitrary: docs lg)
  case Nil
  have "map (migrated uid []) docs = docs" by (induction docs) (auto simp: migrated_def)
  then show ?case by simp
next
  case (Cons e es)
  obtain ol nw where e: "e = (ol, nw)" by (cases e)
  let ?docs' = "fst (updateMany uid ol nw docs)"
  have ne: "ol \<noteq> nw" using Cons.prems(3) e by auto
  have nw_free: "nw \<notin> fst ` set es" using Cons.prems(3) e by auto
  have cnt: "snd (updateMany uid ol nw docs) = carrying uid ol docs"
    using ne by (auto simp: updateMany_def carrying_def intro: arg_cong[where f = length] filter_cong)
  have p1: "\<forall>e\<in>set es. \<not> throws (UpdateMany uid (fst e) (snd e))" using Cons.prems(1) by simp
  have p2: "distinct (map fst es)" using Cons.prems(2) by simp
  have p3: "snd ` set es \<inter> fst ` set es = {}" using Cons.prems(3) by auto
  have ih: "migrateEmails throws uid es ?docs' (lg @ [(ol, nw, carrying uid ol docs)]) =
          Inr (map (migrated uid es) ?docs',
               (lg @ [(ol, nw, carrying uid ol docs)])
                 @ map (\<lambda>e. (fst e, snd e, carrying uid (fst e) ?docs')) es)"
    by (rule Cons.IH[OF p1 p2 p3])
  have docs: "map (migrated uid es) ?docs' = map (migrated uid (e # es)) docs"
    using migrated_Cons[OF nw_free] by (simp add: updateMany_def e)
  have counts: "map (\<lambda>e. (fst e, snd e, carrying uid (fst e) ?docs')) es
              = map (\<lambda>e. (fst e, snd e, carrying uid (fst e) docs)) es"
  proof (rule map_cong[OF refl])
    fix x assume x: "x \<in> set es"
    then have "fst x \<noteq> ol" using Cons.prems(2) e by force
    moreover have "fst x \<noteq> nw" using x nw_free by force
    ultimately show "(fst x, snd x, carrying uid (fst x) ?docs')
                   = (fst x, snd x, carrying uid (fst x) docs)"
      by (simp add: carrying_updateMany)
  qed
  have nt: "\<not> throws (UpdateMany uid ol nw)" using Cons.prems(1) e by simp
  have "migrateEmails throws uid (e # es) docs lg
        = migrateEmails throws uid es ?docs' (lg @ [(ol, nw, carrying uid ol docs)])"
    using nt cnt by (cases "updateMany uid ol nw docs") (simp add: e)
  then show ?case by (simp add: ih docs counts e)
qed

text \<open>
  Where no new status of the map is an old status of the map, the save moves the emails
  entry by entry: every email of the user moves from its old status to the new one, every other
  email stays, and each reported count is the number of emails that carried the old
  status before the save.
\<close>

lemma putConfig_migrates_independent_entries:
  assumes "\<not> noUser userId" "body_columns body = Some cols" "\<not> list_ex incomplete cols"
    and "body_statusMigrations body = Some m"
    and "\<forall>call. \<not> throws call"
    and "distinct (map fst (objectEntries m))"
    and "snd ` set (objectEntries m) \<inter> fst ` set (objectEntries m) = {}"
  shows "putConfig throws userId body srv =
           (Success cols ''Kanban configuration updated successfully'',
            srv\<lparr>emails := map (migrated (the userId) (objectEntries m)) (emails srv),
                configs := (configs srv)(the userId \<mapsto> cols)\<rparr>,
            map (\<lambda>e. (fst e, snd e, carrying (the userId) (fst e) (emails srv))) (objectEntries m))"
proof -
  have "migrateEmails throws (the userId) (objectEntries m) (emails srv) [] =
          Inr (map (migrated (the userId) (objectEntries m)) (emails srv),
               [] @ map (\<lambda>e. (fst e, snd e, carrying (the userId) (fst e) (emails srv)))
                      (objectEntries m))"
    using assms(5,6,7) by (intro migrateEmails_independent) simp_all
  then show ?thesis using assms(1-5) by (simp add: putConfig_def Let_def)
qed

text \<open>
  The example of the claim: the column titled Sent Mail, with no Gmail label, is renamed
  to Archived.
\<close>

lemmas edit_eval =
  handleUpdateColumn_def updateColumn_def setField_def stringOf_def truthy_def
  isGmailLabelUsed_def generateUniqueStatus_base baseStatusOf_def statusTaken_def
  loadedSettings_def Let_def

lemma archived_columns:
  "columns (archived lower) = [(sentMail ! 0)\<lparr>col_status := (str ''archived''), col_title := (str ''Archived'')\<rparr>,
                       sentMail ! 1]"
  by (simp add: archived_def edit_eval slug_Archived sentMail_def defaultColumns_def)

lemma archived_original:
  "originalStatuses (archived lower) = [(str ''col-a'') \<mapsto> (str ''sent-mail''), (str ''col-done'') \<mapsto> (str ''done'')]"
  by (simp add: archived_def handleUpdateColumn_def loadedSettings_def sentMail_def
      defaultColumns_def isGmailLabelUsed_def truthy_def)

lemma archived_body:
  "handleSave (archived lower) =
     \<lparr>body_columns = Some (orderedColumns (columns (archived lower))),
      body_statusMigrations = Some [((str ''sent-mail''), (str ''archived''))]\<rparr>"
  by (simp add: handleSave_def updateKanbanConfig_def Let_def archived_columns archived_original orderedColumns_def
      recordMigration_def sentMail_def defaultColumns_def)

lemma archiveEntries:
  "objectEntries [((str ''sent-mail''), (str ''archived''))] = [((str ''sent-mail''), (str ''archived''))]"
  by (simp add: objectEntries_def isArrayIndex_def digitsValue_def numberToString.simps
      digitChar_def str_def)

lemma sent_mail_renamed_to_archived:
  "map col_status (columns (archived lower)) = [(str ''archived''), (str ''done'')] \<and>
   map doc_status
     (emails (fst (snd (putConfig noFaults (Some (str ''u1'')) (handleSave (archived lower)) sentMailServer))))
     = [(str ''archived''), (str ''done''), (str ''archived''), (str ''sent-mail'')] \<and>
   snd (snd (putConfig noFaults (Some (str ''u1'')) (handleSave (archived lower)) sentMailServer))
     = [((str ''sent-mail''), (str ''archived''), 2)]"
  by (simp add: archived_body archived_columns putConfig_def archiveEntries noFaults_def
      noUser_def truthy_def sentMail_def sentMailServer_def defaultColumns_def incomplete_def
      updateMany_def orderedColumns_def Let_def)

lemma swapped_columns:
  "columns (swapped lower) = [(fooBar ! 0)\<lparr>col_status := (str ''bar''), col_title := (str ''Bar'')\<rparr>,
                      (fooBar ! 1)\<lparr>col_status := (str ''foo''), col_title := (str ''Foo'')\<rparr>]"
  by (simp add: swapped_def edit_eval slug_Foo_Bar_Baz fooBar_def)

lemma swapped_original: "originalStatuses (swapped lower) = [(str ''col-a'') \<mapsto> (str ''foo''), (str ''col-b'') \<mapsto> (str ''bar'')]"
  by (simp add: swapped_def handleUpdateColumn_def loadedSettings_def fooBar_def
      isGmailLabelUsed_def truthy_def)

lemma swapped_body:
  "handleSave (swapped lower) =
     \<lparr>body_columns = Some (columns (swapped lower)),
      body_statusMigrations = Some [((str ''foo''), (str ''bar'')), ((str ''bar''), (str ''foo''))]\<rparr>"
  by (simp add: handleSave_def updateKanbanConfig_def Let_def swapped_columns swapped_original orderedColumns_def
      recordMigration_def fooBar_def)

lemma swapEntries:
  "objectEntries [((str ''foo''), (str ''bar'')), ((str ''bar''), (str ''foo''))] = [((str ''foo''), (str ''bar'')), ((str ''bar''), (str ''foo''))]"
  by (simp add: objectEntries_def isArrayIndex_def digitsValue_def numberToString.simps
      digitChar_def str_def)

text \<open>
  Claim C2 at this save. The map has the entries \<open>foo \<rightarrow> bar\<close> and \<open>bar \<rightarrow> foo\<close>. The first
  bulk update moves the email of column A to \<open>bar\<close>; the second moves it back to \<open>foo\<close>
  together with the email of column B. Both emails end with the status \<open>foo\<close>, and the
  second reported count is 2 where one email carried \<open>bar\<close>.
\<close>

theorem C2_swap_merges_two_columns:
  "map col_status (columns (swapped lower)) = [(str ''bar''), (str ''foo'')] \<and>
   body_statusMigrations (handleSave (swapped lower)) = Some [((str ''foo''), (str ''bar'')), ((str ''bar''), (str ''foo''))] \<and>
   map doc_status (emails fooBarServer) = [(str ''foo''), (str ''bar'')] \<and>
   statusCode (fst (putConfig noFaults (Some (str ''u1'')) (handleSave (swapped lower)) fooBarServer)) = 200 \<and>
   map doc_status
     (emails (fst (snd (putConfig noFaults (Some (str ''u1'')) (handleSave (swapped lower)) fooBarServer))))
     = [(str ''foo''), (str ''foo'')] \<and>
   snd (snd (putConfig noFaults (Some (str ''u1'')) (handleSave (swapped lower)) fooBarServer))
     = [((str ''foo''), (str ''bar''), 1), ((str ''bar''), (str ''foo''), 2)]"
  by (simp add: swapped_body swapped_columns putConfig_def swapEntries noFaults_def noUser_def
      truthy_def fooBar_def fooBarServer_def incomplete_def updateMany_def Let_def)

subsection \<open>Drag and drop\<close>

lemma setHoursPlus_fixed_offset:
  assumes "tzaOfUTC zone now = offset"
    and "tzaOfLocal zone (now + offset + hours * 3600000) = offset"
  shows "setHoursPlus zone now hours = now + hours * 3600000"
  using assms by (simp add: setHoursPlus_def Let_def)

lemma setHoursPlus_utc: "setHoursPlus utc now hours = now + hours * 3600000"
  by (simp add: setHoursPlus_def utc_def)

text \<open>
  What a drop does, in every time zone. With an email \<open>d\<close> being dragged: a drop on the
  column of its own status issues no backend call and leaves the projection as it is. A
  drop on a column with another status, with the buckets of both statuses on the board
  and the backend call succeeding, issues the snooze call for the time that \<open>setHours\<close>
  gives for one hour more when the target is the snooze column (the column of status
  \<open>snoozed\<close>), and the status update otherwise; it removes the email from the bucket of
  its old status and appends it to the target bucket with the target status, and with
  \<open>snoozeUntil\<close> set to that time for the snooze column and cleared otherwise. The other
  buckets stay as they are.
\<close>

lemma handleDrop_moves_the_email:
  "draggingEmail b = Some d \<longrightarrow>
   (email_status d = target \<longrightarrow>
      handleDrop zone throws now target b = ([], Inr (b\<lparr>draggingEmail := None\<rparr>))) \<and>
   (email_status d \<noteq> target \<and>
    emailsByStatus b (email_status d) = Some source \<and>
    emailsByStatus b target = Some bucket \<and>
    \<not> throws (if target = str ''snoozed''
               then SnoozeEmail (email_id d) (setHoursPlus zone now 1)
               else UpdateEmailStatus (email_id d) target) \<longrightarrow>
      (\<exists>b'. handleDrop zone throws now target b =
               ([if target = str ''snoozed''
                 then SnoozeEmail (email_id d) (setHoursPlus zone now 1)
                 else UpdateEmailStatus (email_id d) target], Inr b') \<and>
            emailsByStatus b' target =
              Some (bucket @ [d\<lparr>email_status := target,
                                 snoozeUntil := (if target = str ''snoozed''
                                                 then Some (setHoursPlus zone now 1)
                                                 else None)\<rparr>]) \<and>
            emailsByStatus b' (email_status d) =
              Some (filter (\<lambda>e. email_id e \<noteq> email_id d) source) \<and>
            email_id d \<notin> email_id ` set (the (emailsByStatus b' (email_status d))) \<and>
            (\<forall>k. k \<noteq> target \<and> k \<noteq> email_status d \<longrightarrow>
                 emailsByStatus b' k = emailsByStatus b k)))"
proof (intro impI conjI)
  assume "draggingEmail b = Some d" "email_status d = target"
  then show "handleDrop zone throws now target b = ([], Inr (b\<lparr>draggingEmail := None\<rparr>))"
    by (simp add: handleDrop_def)
next
  let ?until = "setHoursPlus zone now 1"
  let ?call = "if target = str ''snoozed'' then SnoozeEmail (email_id d) ?until
               else UpdateEmailStatus (email_id d) target"
  assume dr: "draggingEmail b = Some d"
    and a: "email_status d \<noteq> target \<and>
      emailsByStatus b (email_status d) = Some source \<and>
      emailsByStatus b target = Some bucket \<and> \<not> throws ?call"
  show "\<exists>b'. handleDrop zone throws now target b = ([?call], Inr b') \<and>
            emailsByStatus b' target =
              Some (bucket @ [d\<lparr>email_status := target,
                                 snoozeUntil := (if target = str ''snoozed''
                                                 then Some ?until else None)\<rparr>]) \<and>
            emailsByStatus b' (email_status d) =
              Some (filter (\<lambda>e. email_id e \<noteq> email_id d) source) \<and>
            email_id d \<notin> email_id ` set (the (emailsByStatus b' (email_status d))) \<and>
            (\<forall>k. k \<noteq> target \<and> k \<noteq> email_status d \<longrightarrow>
                 emailsByStatus b' k = emailsByStatus b k)"
  proof (cases "target = str ''snoozed''")
    case True
    let ?p = "(emailsByStatus b)(email_status d \<mapsto> filter (\<lambda>e. email_id e \<noteq> email_id d) source,
                str ''snoozed'' \<mapsto> bucket @ [d\<lparr>email_status := str ''snoozed'',
                                                  snoozeUntil := Some ?until\<rparr>])"
    have "handleDrop zone throws now target b
          = ([?call], Inr (b\<lparr>emailsByStatus := ?p, draggingEmail := None\<rparr>))"
      using dr a True
      by (simp add: handleDrop_def Let_def applyUpdate_def dropToSnoozed_def)
    then show ?thesis using a True
      by (intro exI[of _ "b\<lparr>emailsByStatus := ?p, draggingEmail := None\<rparr>"]) auto
  next
    case False
    let ?p = "(emailsByStatus b)(email_status d \<mapsto> filter (\<lambda>e. email_id e \<noteq> email_id d) source,
                target \<mapsto> bucket @ [d\<lparr>email_status := target, snoozeUntil := None\<rparr>])"
    have "handleDrop zone throws now target b
          = ([?call], Inr (b\<lparr>emailsByStatus := ?p, draggingEmail := None\<rparr>))"
      using dr a False
      by (simp add: handleDrop_def Let_def applyUpdate_def dropToColumn_def)
    then show ?thesis using a False
      by (intro exI[of _ "b\<lparr>emailsByStatus := ?p, draggingEmail := None\<rparr>"]) auto
  qed
qed

text \<open>
  Where the offset of the time zone is the same at \<open>now\<close> and for the local time one hour
  later, that time is one hour from now: a drop on the snooze column in UTC.
\<close>

lemma drop_on_snoozed_in_utc:
  "handleDrop utc backendUp 1000 (str ''snoozed'') fiveBuckets =
     ([SnoozeEmail (str ''m2'') 3601000],
      Inr (fiveBuckets
            \<lparr>emailsByStatus := (emailsByStatus fiveBuckets)
               (str ''todo'' \<mapsto> [],
                str ''snoozed'' \<mapsto> [mail (str ''m3'') (str ''snoozed'') (Some 5000),
                                       mail (str ''m2'') (str ''snoozed'') (Some 3601000)]),
             draggingEmail := None\<rparr>))"
  by (simp add: handleDrop_def Let_def applyUpdate_def dropToSnoozed_def setHoursPlus_utc
      fiveBuckets_def backendUp_def mail_def)

text \<open>
  Claim C7 at the end of daylight saving time. It is 01:30 local time (05:30 UTC, the
  time value 1793511000000) on the first of November 2026 in the Eastern time zone, half
  an hour before the clocks go back, and the email \<open>m2\<close> is dropped on the column
  Snoozed. \<open>setHours\<close> moves the local time to 02:30, which exists only after the change:
  the time of the snooze call and of the local \<open>snoozeUntil\<close> is 1793518200000, two hours
  (7200000 milliseconds) from now, not one.
\<close>

theorem C7_drop_snoozes_two_hours_when_clocks_go_back:
  "setHoursPlus easternFall2026 1793511000000 1 = 1793511000000 + 7200000 \<and>
   handleDrop easternFall2026 backendUp 1793511000000 (str ''snoozed'') fiveBuckets =
     ([SnoozeEmail (str ''m2'') 1793518200000],
      Inr (fiveBuckets
            \<lparr>emailsByStatus := (emailsByStatus fiveBuckets)
               (str ''todo'' \<mapsto> [],
                str ''snoozed'' \<mapsto> [mail (str ''m3'') (str ''snoozed'') (Some 5000),
                                       mail (str ''m2'') (str ''snoozed'') (Some 1793518200000)]),
             draggingEmail := None\<rparr>))"
proof -
  have t: "setHoursPlus easternFall2026 1793511000000 1 = 1793518200000"
    by (simp add: setHoursPlus_def easternFall2026_def)
  show ?thesis
    by (simp add: handleDrop_def Let_def applyUpdate_def dropToSnoozed_def t
        fiveBuckets_def backendUp_def mail_def)
qed

subsection \<open>Snooze\<close>









end
